theory Spec2Isabelle
  imports Complex_Main "HOL-Library.Sublist" "HOL-Library.AList"
begin

unbundle bit_operations_syntax

section \<open>Python values used by apachehttpmount.py\<close>

text \<open>
  A \<open>char\<close> stands for one byte of a \<open>bytes\<close> value and for one code point
  below 256 of a \<open>str\<close> value. A response carries its body twice:
  \<open>response.content\<close>, the bytes, and \<open>response.text\<close>, the text that \<open>requests\<close>
  decodes from them.
\<close>

datatype errno = EIO | ENOENT | EROFS | EACCES | ENOTDIR | EISDIR | EPERM

datatype pyerr =
    FileNotFoundError string
  | FuseOSError errno
  | KeyError
  | TypeError
  | IndexError
  | ValueError
  | OverflowError
  | AssertionError
  | NotImplementedError
  | RequestException

subsection \<open>Character classes of \<open>re\<close> and \<open>str\<close>\<close>

definition is_digit :: "char \<Rightarrow> bool" where
  "is_digit c = (c \<in> set ''0123456789'')"

text \<open>\<open>\s\<close> on a \<open>str\<close> pattern: the Unicode white space below 256.\<close>

definition is_space :: "char \<Rightarrow> bool" where
  "is_space c = (let n = (of_char c :: nat) in
     (9 \<le> n \<and> n \<le> 13) \<or> (28 \<le> n \<and> n \<le> 32) \<or> n = 133 \<or> n = 160)"

text \<open>\<open>\w\<close> on a \<open>str\<close> pattern: \<open>str.isalnum\<close> or the underscore, below 256.\<close>

definition is_word :: "char \<Rightarrow> bool" where
  "is_word c = (let n = (of_char c :: nat) in
     (48 \<le> n \<and> n \<le> 57) \<or> (65 \<le> n \<and> n \<le> 90) \<or> n = 95 \<or> (97 \<le> n \<and> n \<le> 122) \<or>
     n = 170 \<or> n = 178 \<or> n = 179 \<or> n = 181 \<or> n = 185 \<or> n = 186 \<or>
     (188 \<le> n \<and> n \<le> 190) \<or> (192 \<le> n \<and> n \<le> 214) \<or> (216 \<le> n \<and> n \<le> 246) \<or>
     (248 \<le> n \<and> n \<le> 255))"

definition not_quote :: "char \<Rightarrow> bool" where
  \<open>not_quote c = (c \<noteq> CHR 0x22)\<close>

definition not_lt :: "char \<Rightarrow> bool" where
  "not_lt c = (c \<noteq> CHR ''<'')"

definition is_sizechr :: "char \<Rightarrow> bool" where
  "is_sizechr c = (c \<in> set ''0123456789.'')"

subsection \<open>String methods\<close>

text \<open>\<open>s.find(sub)\<close>: the index of the first occurrence, \<open>None\<close> for \<open>-1\<close>.\<close>

fun str_find :: "string \<Rightarrow> string \<Rightarrow> nat option" where
  "str_find [] sub = (if sub = [] then Some 0 else None)"
| "str_find (c # s) sub =
     (if prefix sub (c # s) then Some 0
      else (case str_find s sub of None \<Rightarrow> None | Some i \<Rightarrow> Some (Suc i)))"

text \<open>\<open>s.count(sub)\<close> for a non-empty \<open>sub\<close>: occurrences that do not overlap,
  counted from the left. The fuel is the length of \<open>s\<close>.\<close>

fun str_count_from :: "nat \<Rightarrow> string \<Rightarrow> string \<Rightarrow> nat" where
  "str_count_from 0 s sub = 0"
| "str_count_from (Suc k) s sub =
     (case s of [] \<Rightarrow> 0
      | c # s' \<Rightarrow> if prefix sub s then Suc (str_count_from k (drop (length sub) s) sub)
                  else str_count_from k s' sub)"

definition str_count :: "string \<Rightarrow> string \<Rightarrow> nat" where
  "str_count s sub = str_count_from (length s) s sub"

definition is_linebreak :: "char \<Rightarrow> bool" where
  "is_linebreak c = (let n = (of_char c :: nat) in
     (10 \<le> n \<and> n \<le> 13) \<or> (28 \<le> n \<and> n \<le> 30) \<or> n = 133)"

text \<open>\<open>s.splitlines()\<close>: \<open>cur\<close> is the line being read, reversed; a carriage return
  followed by a line feed is one boundary, and no empty last line is produced.\<close>

fun splitlines_acc :: "string \<Rightarrow> string \<Rightarrow> string list" where
  "splitlines_acc cur [] = (if cur = [] then [] else [rev cur])"
| "splitlines_acc cur (c # s) =
     (if c = CHR 0x0D \<and> (case s of [] \<Rightarrow> False | d # _ \<Rightarrow> d = CHR 0x0A)
        then rev cur # splitlines_acc [] (tl s)
      else if is_linebreak c then rev cur # splitlines_acc [] s
      else splitlines_acc (c # cur) s)"

definition splitlines :: "string \<Rightarrow> string list" where
  "splitlines s = splitlines_acc [] s"

definition rstrip :: "char \<Rightarrow> string \<Rightarrow> string" where
  "rstrip c s = rev (dropWhile (\<lambda>x. x = c) (rev s))"

definition lstrip :: "char \<Rightarrow> string \<Rightarrow> string" where
  "lstrip c s = dropWhile (\<lambda>x. x = c) s"

definition endswith :: "string \<Rightarrow> string \<Rightarrow> bool" where
  "endswith s suf = suffix suf s"

subsection \<open>\<open>os.path\<close> (posixpath)\<close>

text \<open>\<open>head\<close> is \<open>p[:p.rfind('/') + 1]\<close>.\<close>

definition path_head :: "string \<Rightarrow> string" where
  "path_head p = rev (dropWhile (\<lambda>c. c \<noteq> CHR ''/'') (rev p))"

definition dirname :: "string \<Rightarrow> string" where
  "dirname p = (let head = path_head p in
     if head \<noteq> [] \<and> head \<noteq> replicate (length head) (CHR ''/'')
     then rstrip (CHR ''/'') head else head)"

definition basename :: "string \<Rightarrow> string" where
  "basename p = rev (takeWhile (\<lambda>c. c \<noteq> CHR ''/'') (rev p))"

text \<open>\<open>os.path.join(a, b)\<close> for two components.\<close>

definition path_join :: "string \<Rightarrow> string \<Rightarrow> string" where
  "path_join a b =
     (if prefix ''/'' b then b
      else if a = [] \<or> endswith a ''/'' then a @ b
      else a @ ''/'' @ b)"

section \<open>The entry pattern and its matcher\<close>

text \<open>
  The fragment of \<open>re\<close> that the entry pattern uses: literals, greedy repetitions of a
  character class, named groups, an alternative and the end anchor. A pattern is the
  list of its items; matching backtracks as \<open>re.match\<close> does: a greedy repetition tries
  the longest run first, an alternative its left branch first.
\<close>

datatype ritem =
    Lit string
  | Plus "char \<Rightarrow> bool"
  | Star "char \<Rightarrow> bool"
  | Opt "char \<Rightarrow> bool"
  | Open_grp string
  | Close_grp string
  | Alt "ritem list" "ritem list"
  | Eos

text \<open>The groups: the text at which each open group started, and the closed groups.\<close>

record caps =
  opened :: "(string \<times> string) list"
  closed :: "(string \<times> string) list"

definition open_grp :: "string \<Rightarrow> string \<Rightarrow> caps \<Rightarrow> caps" where
  "open_grp g s c = c\<lparr>opened := (g, s) # opened c\<rparr>"

definition close_grp :: "string \<Rightarrow> string \<Rightarrow> caps \<Rightarrow> caps" where
  "close_grp g s c =
     (case map_of (opened c) g of
        None \<Rightarrow> c
      | Some s0 \<Rightarrow> c\<lparr>closed := (g, take (length s0 - length s) s0) # closed c\<rparr>)"

function rmatch :: "ritem list \<Rightarrow> string \<Rightarrow> caps \<Rightarrow> caps option"
  and rtry :: "ritem list \<Rightarrow> string \<Rightarrow> nat \<Rightarrow> nat \<Rightarrow> caps \<Rightarrow> caps option" where
  "rmatch [] s c = Some c"
| "rmatch (Lit l # rs) s c = (if prefix l s then rmatch rs (drop (length l) s) c else None)"
| "rmatch (Plus P # rs) s c = rtry rs s (length (takeWhile P s)) 1 c"
| "rmatch (Star P # rs) s c = rtry rs s (length (takeWhile P s)) 0 c"
| "rmatch (Opt P # rs) s c = rtry rs s (min 1 (length (takeWhile P s))) 0 c"
| "rmatch (Open_grp g # rs) s c = rmatch rs s (open_grp g s c)"
| "rmatch (Close_grp g # rs) s c = rmatch rs s (close_grp g s c)"
| "rmatch (Alt a b # rs) s c =
     (case rmatch (a @ rs) s c of Some r \<Rightarrow> Some r | None \<Rightarrow> rmatch (b @ rs) s c)"
| "rmatch (Eos # rs) s c = (if s = [] \<or> s = [CHR 0x0A] then rmatch rs s c else None)"
| "rtry rs s k lo c =
     (if k < lo then None
      else (case rmatch rs (drop k s) c of
              Some r \<Rightarrow> Some r
            | None \<Rightarrow> if k = 0 then None else rtry rs s (k - 1) lo c))"
  by pat_completeness auto
termination
  by (relation "measures [
        (\<lambda>x. case x of Inl (rs, s, c) \<Rightarrow> size_list size rs
                  | Inr (rs, s, k, lo, c) \<Rightarrow> size_list size rs),
        (\<lambda>x. case x of Inl (rs, s, c) \<Rightarrow> 0
                  | Inr (rs, s, k, lo, c) \<Rightarrow> Suc k)]") auto

text \<open>
  The pattern of \<open>_parse_listing\<close>:
  \<^verbatim>\<open>^<img src="[^"]+" alt="\[(?P<icon>[^"]+)\]"> <a href="(?P<url>[^"]+)">(?P<name>[^<]+)</a>\s*\<close>
  \<^verbatim>\<open>(?P<date>\d+-\w+-\d+)\s+(?P<time>\d+:\d+)\s+(?P<size>[0-9.]+|-)(?P<sizeunit>\w?)\s*$\<close>
\<close>

definition entry_pattern :: "ritem list" where
  \<open>entry_pattern =
    [Lit ''<img src="'', Plus not_quote, Lit ''" alt="['',
     Open_grp ''icon'', Plus not_quote, Close_grp ''icon'', Lit '']"> <a href="'',
     Open_grp ''url'', Plus not_quote, Close_grp ''url'', Lit ''">'',
     Open_grp ''name'', Plus not_lt, Close_grp ''name'', Lit ''</a>'', Star is_space,
     Open_grp ''date'', Plus is_digit, Lit ''-'', Plus is_word, Lit ''-'', Plus is_digit,
     Close_grp ''date'', Plus is_space,
     Open_grp ''time'', Plus is_digit, Lit '':'', Plus is_digit, Close_grp ''time'',
     Plus is_space,
     Open_grp ''size'', Alt [Plus is_sizechr] [Lit ''-''], Close_grp ''size'',
     Open_grp ''sizeunit'', Opt is_word, Close_grp ''sizeunit'',
     Star is_space, Eos]\<close>

definition re_match :: "ritem list \<Rightarrow> string \<Rightarrow> caps option" where
  "re_match p s = rmatch p s \<lparr>opened = [], closed = []\<rparr>"

text \<open>\<open>mo.group(g)\<close>; every group of the entry pattern takes part in every match.\<close>

definition mo_group :: "caps \<Rightarrow> string \<Rightarrow> string" where
  "mo_group mo g = (case map_of (closed mo) g of None \<Rightarrow> [] | Some v \<Rightarrow> v)"

section \<open>Floats\<close>

text \<open>
  The size arithmetic is done on IEEE 754 doubles. All values are non-negative:
  \<open>Fin m e\<close> is the double \<open>m * 2 ^ e\<close>, \<open>Inf\<close> is \<open>inf\<close>. \<open>to_double a b\<close> is the
  fraction \<open>a / b\<close> rounded to the nearest double, ties to even, as \<open>float(str)\<close>,
  the literal \<open>0.1\<close> and each operation round.
\<close>

datatype pyfloat = Fin nat int | Inf

fun bit_length :: "nat \<Rightarrow> nat" where
  "bit_length n = (if n = 0 then 0 else Suc (bit_length (n div 2)))"

declare bit_length.simps [simp del]

text \<open>The integer part of the binary logarithm of \<open>a / b\<close>, for positive \<open>a\<close> and \<open>b\<close>.\<close>

definition floor_log2 :: "nat \<Rightarrow> nat \<Rightarrow> int" where
  "floor_log2 a b =
     (let e0 = int (bit_length a) - int (bit_length b) in
      if (if 0 \<le> e0 then b * 2 ^ nat e0 \<le> a else b \<le> a * 2 ^ nat (- e0))
      then e0 else e0 - 1)"

definition round_half_even :: "nat \<Rightarrow> nat \<Rightarrow> nat" where
  "round_half_even n d =
     (let q = n div d; r = n mod d in
      if 2 * r < d then q
      else if d < 2 * r then q + 1
      else if even q then q else q + 1)"

definition to_double :: "nat \<Rightarrow> nat \<Rightarrow> pyfloat" where
  "to_double a b =
     (if a = 0 then Fin 0 0
      else
        let q = max (floor_log2 a b) (- 1022) - 52;
            m = (if 0 \<le> q then round_half_even a (b * 2 ^ nat q)
                 else round_half_even (a * 2 ^ nat (- q)) b)
        in if 0 \<le> q \<and> 2 ^ 1024 \<le> m * 2 ^ nat q then Inf else Fin m q)"

text \<open>The value of a finite double as a fraction.\<close>

definition to_fraction :: "nat \<Rightarrow> int \<Rightarrow> nat \<times> nat" where
  "to_fraction m e = (if 0 \<le> e then (m * 2 ^ nat e, 1) else (m, 2 ^ nat (- e)))"

definition float_add :: "pyfloat \<Rightarrow> pyfloat \<Rightarrow> pyfloat" where
  "float_add x y =
     (case x of Inf \<Rightarrow> Inf
      | Fin m1 e1 \<Rightarrow>
          (case y of Inf \<Rightarrow> Inf
           | Fin m2 e2 \<Rightarrow>
               let e = min e1 e2;
                   s = m1 * 2 ^ nat (e1 - e) + m2 * 2 ^ nat (e2 - e);
                   f = to_fraction s e
               in to_double (fst f) (snd f)))"

text \<open>\<open>x * 2 ** k\<close>: the integer \<open>2 ** k\<close> is converted exactly for the \<open>k\<close> used here.\<close>

definition float_mul_pow2 :: "pyfloat \<Rightarrow> nat \<Rightarrow> pyfloat" where
  "float_mul_pow2 x k =
     (case x of Inf \<Rightarrow> Inf
      | Fin m e \<Rightarrow> let f = to_fraction m (e + int k) in to_double (fst f) (snd f))"

text \<open>\<open>int(x)\<close> truncates; \<open>int(inf)\<close> raises \<open>OverflowError\<close>.\<close>

definition py_int :: "pyfloat \<Rightarrow> pyerr + int" where
  "py_int x =
     (case x of Inf \<Rightarrow> Inl OverflowError
      | Fin m e \<Rightarrow> let f = to_fraction m e in Inr (int (fst f div snd f)))"

fun digits_value :: "nat \<Rightarrow> string \<Rightarrow> nat" where
  "digits_value acc [] = acc"
| "digits_value acc (c # cs) = digits_value (10 * acc + (of_char c - 48)) cs"

text \<open>
  \<open>float(s)\<close> for a string of digits and dots, which is all that the group \<open>size\<close>
  can hold when it is not a dash: at most one dot and at least one digit, else
  \<open>ValueError\<close>.
\<close>

definition py_float :: "string \<Rightarrow> pyerr + pyfloat" where
  "py_float s =
     (let ip = takeWhile is_digit s; rest = dropWhile is_digit s in
      if rest = [] then
        (if ip = [] then Inl ValueError else Inr (to_double (digits_value 0 ip) 1))
      else if hd rest = CHR ''.'' \<and> list_all is_digit (tl rest) \<and> ip @ tl rest \<noteq> [] then
        Inr (to_double (digits_value 0 (ip @ tl rest)) (10 ^ length (tl rest)))
      else Inl ValueError)"

definition sizes :: "string list" where
  "sizes = [[]] @ map (\<lambda>c. [c]) ''KMGTP''"

text \<open>\<open>xs.index(x)\<close>.\<close>

fun list_index :: "'a list \<Rightarrow> 'a \<Rightarrow> pyerr + nat" where
  "list_index [] x = Inl ValueError"
| "list_index (y # ys) x =
     (if y = x then Inr 0
      else (case list_index ys x of Inl e \<Rightarrow> Inl e | Inr i \<Rightarrow> Inr (Suc i)))"

text \<open>
  Lines 103 and 104:
  \<^verbatim>\<open>size = (0 if str_size == '-' else\<close>
  \<^verbatim>\<open>        int((0.1 + float(str_size)) * 2 ** (10*sizes.index(str_sizeunit))))\<close>
\<close>

definition decode_size :: "string \<Rightarrow> string \<Rightarrow> pyerr + int" where
  "decode_size str_size str_sizeunit =
     (if str_size = ''-'' then Inr 0
      else
        (case py_float str_size of
           Inl e \<Rightarrow> Inl e
         | Inr x \<Rightarrow>
             (case list_index sizes str_sizeunit of
                Inl e \<Rightarrow> Inl e
              | Inr i \<Rightarrow> py_int (float_mul_pow2 (float_add (to_double 1 10) x) (10 * i)))))"

section \<open>The mount\<close>

text \<open>
  What the program takes from outside: the root URL, the server behind
  \<open>requests.get\<close> (its answer to the \<open>n\<close>-th request, for a URL, is the triple of
  \<open>status_code\<close>, \<open>content\<close> and \<open>text\<close>, or an exception of the transport), \<open>datetime\<close> with \<open>strptime\<close> for the format
  \<open>%d-%b-%Y %H:%M\<close>, \<open>fromtimestamp(0)\<close> and \<open>timestamp()\<close>, and the ids of the user
  \<open>nobody\<close>. The type \<open>'t\<close> is \<open>datetime\<close>.
\<close>

record 't env =
  root :: string
  requests_get :: "nat \<Rightarrow> string \<Rightarrow> pyerr + (int \<times> string \<times> string)"
  strptime :: "string \<Rightarrow> pyerr + 't"
  fromtimestamp0 :: 't
  timestamp :: "'t \<Rightarrow> rat"
  uid :: int
  gid :: int

text \<open>A directory entry is the triple \<open>(icon, size, mtime)\<close>.\<close>

type_synonym 't dent = "string \<times> int \<times> 't"

text \<open>An \<open>OrderedDict\<close> is the list of its items in insertion order;
  \<open>d[k] = v\<close> is \<open>AList.update k v d\<close> and \<open>d[k]\<close> is \<open>map_of d k\<close>.\<close>

type_synonym 't listing = "(string \<times> 't dent) list"

section \<open>\<open>_parse_listing\<close>\<close>

definition parse_entry :: "'t env \<Rightarrow> string \<Rightarrow> pyerr + (string \<times> 't dent)" where
  "parse_entry E str_entry =
     (case re_match entry_pattern str_entry of
        None \<Rightarrow> Inl AssertionError
      | Some mo \<Rightarrow>
          let icon = mo_group mo ''icon''; url = mo_group mo ''url''; name = mo_group mo ''name'' in
          if url \<noteq> name then Inl AssertionError
          else
            let isdir = endswith name ''/''; name' = rstrip (CHR ''/'') name in
            if isdir \<noteq> (icon = ''DIR'') then Inl AssertionError
            else
              (case strptime E (mo_group mo ''date'' @ '' '' @ mo_group mo ''time'') of
                 Inl e \<Rightarrow> Inl e
               | Inr mtime \<Rightarrow>
                   (case decode_size (mo_group mo ''size'') (mo_group mo ''sizeunit'') of
                      Inl e \<Rightarrow> Inl e
                    | Inr sz \<Rightarrow> Inr (name', (icon, sz, mtime)))))"

text \<open>The loop over the entry lines, \<open>result[name] = (icon, size, mtime)\<close>.\<close>

fun parse_entries :: "'t env \<Rightarrow> 't listing \<Rightarrow> string list \<Rightarrow> pyerr + 't listing" where
  "parse_entries E result [] = Inr result"
| "parse_entries E result (str_entry # entries) =
     (case parse_entry E str_entry of
        Inl e \<Rightarrow> Inl e
      | Inr (name, d) \<Rightarrow> parse_entries E (AList.update name d result) entries)"

definition parse_listing :: "'t env \<Rightarrow> string \<Rightarrow> pyerr + 't listing" where
  "parse_listing E text =
     (let start = ''<pre>''; stop = ''</pre>'' in
      if \<not> (str_count text start = str_count text stop \<and> str_count text stop = 1)
      then Inl AssertionError
      else
        (case (str_find text start, str_find text stop) of
           (Some i, Some j) \<Rightarrow>
             let listing = take (j - (i + length start)) (drop (i + length start) text);
                 lines = splitlines listing
             in
               if lines = [] then Inl IndexError
               else
                 let header = hd lines in
                 if \<not> (str_count header ''Name'' = str_count header ''Last modified'' \<and>
                        str_count header ''Last modified'' = 1)
                 then Inl AssertionError
                 else
                   let entries = butlast (tl lines) in
                   if last lines \<noteq> ''<hr>'' then Inl AssertionError
                   else parse_entries E [] entries
         | _ \<Rightarrow> Inl ValueError))"

section \<open>The cache and \<open>_get\<close>\<close>

text \<open>
  A value of \<open>self._cache\<close>: \<open>None\<close> for a path that answered 404, an
  \<open>OrderedDict\<close> for a listing, \<open>bytes\<close> for a file.
\<close>

datatype 't centry = Absent | Listing "'t listing" | Content string

text \<open>
  The state of one \<open>Http\<close> object: the cache, the counter \<open>fd\<close>, and the paths for
  which \<open>_get\<close> has called \<open>requests.get\<close>, oldest first (the lines \<open>GET ...\<close> that
  \<open>_get\<close> prints).
\<close>

record 't state =
  cache :: "string \<rightharpoonup> 't centry"
  fd :: int
  gets :: "string list"

definition LISTING :: string where
  \<open>LISTING = ''<!DOCTYPE HTML PUBLIC "-//W3C//DTD HTML 3.2 Final//EN">'' @ [CHR 0x0A] @
     ''<html>'' @ [CHR 0x0A] @ '' <head>'' @ [CHR 0x0A] @ ''  <title>Index of ''\<close>

definition full_path :: "'t env \<Rightarrow> string \<Rightarrow> string" where
  "full_path E partial = path_join (root E) (lstrip (CHR ''/'') partial)"

text \<open>
  \<open>_get\<close>. The test for a listing reads \<open>response.content\<close>, the parser reads
  \<open>response.text\<close>. The listing that \<open>pardir\<close> names is the object stored under
  \<open>os.path.dirname(path)\<close>, so the assignment \<open>pardir[basename] = ...\<close> is an update of
  that cache entry. Indexing \<open>bytes\<close> with a \<open>str\<close> raises \<open>TypeError\<close>.
\<close>

function get :: "'t env \<Rightarrow> 't state \<Rightarrow> string \<Rightarrow> (pyerr + 't centry) \<times> 't state" where
  "get E s path =
     (case cache s path of
        Some Absent \<Rightarrow> (Inl (FileNotFoundError path), s)
      | Some (Listing d) \<Rightarrow> (Inr (Listing d), s)
      | Some (Content b) \<Rightarrow> (Inr (Content b), s)
      | None \<Rightarrow>
          (case requests_get E (length (gets s)) (full_path E path) of
             Inl e \<Rightarrow> (Inl e, s\<lparr>gets := gets s @ [path]\<rparr>)
           | Inr (status_code, content, text) \<Rightarrow>
               if status_code = 404 then
                 (Inl (FileNotFoundError path),
                  s\<lparr>gets := gets s @ [path], cache := (cache s)(path \<mapsto> Absent)\<rparr>)
               else if status_code \<noteq> 200 then
                 (Inl (FuseOSError EIO), s\<lparr>gets := gets s @ [path]\<rparr>)
               else if prefix LISTING content then
                 (case parse_listing E text of
                    Inl e \<Rightarrow> (Inl e, s\<lparr>gets := gets s @ [path]\<rparr>)
                  | Inr d \<Rightarrow>
                      (Inr (Listing d),
                       s\<lparr>gets := gets s @ [path], cache := (cache s)(path \<mapsto> Listing d)\<rparr>))
               else
                 (case get E (s\<lparr>gets := gets s @ [path],
                                 cache := (cache s)(path \<mapsto> Content content)\<rparr>)
                         (dirname path) of
                    (Inl e, s') \<Rightarrow> (Inl e, s')
                  | (Inr Absent, s') \<Rightarrow> (Inl TypeError, s')
                  | (Inr (Content b), s') \<Rightarrow> (Inl TypeError, s')
                  | (Inr (Listing pardir), s') \<Rightarrow>
                      (case map_of pardir (basename path) of
                         None \<Rightarrow> (Inl KeyError, s')
                       | Some (icon, size_, mtime_dt) \<Rightarrow>
                           let s'' = s'\<lparr>cache := (cache s')(dirname path \<mapsto>
                                 Listing (AList.update (basename path)
                                   (icon, int (length content), mtime_dt) pardir))\<rparr>
                           in (case cache s'' path of
                                 None \<Rightarrow> (Inl KeyError, s'')
                               | Some r \<Rightarrow> (Inr r, s''))))))"
  by pat_completeness auto
termination
proof (relation "measure (\<lambda>(E, s, p). case cache s p of None \<Rightarrow> Suc (length p) | Some _ \<Rightarrow> 0)")
  show "wf (measure (\<lambda>(E :: 't env, s :: 't state, p).
          case cache s p of None \<Rightarrow> Suc (length p) | Some _ \<Rightarrow> 0))"
    by simp
next
  fix E :: "'t env" and s :: "'t state" and path :: string and content :: string
  assume miss: "cache s path = None"
  have head: "prefix (path_head path) path"
  proof -
    have "path = rev (dropWhile (\<lambda>c. c \<noteq> CHR ''/'') (rev path)) @
                 rev (takeWhile (\<lambda>c. c \<noteq> CHR ''/'') (rev path))"
      by (metis rev_append rev_rev_ident takeWhile_dropWhile_id)
    then show ?thesis
      unfolding path_head_def by (metis prefixI)
  qed
  have strip: "prefix (rstrip (CHR ''/'') h) h" for h
  proof -
    have "h = rev (dropWhile (\<lambda>x. x = CHR ''/'') (rev h)) @
              rev (takeWhile (\<lambda>x. x = CHR ''/'') (rev h))"
      by (metis rev_append rev_rev_ident takeWhile_dropWhile_id)
    then show ?thesis
      unfolding rstrip_def by (metis prefixI)
  qed
  have pre: "prefix (dirname path) path"
    using head strip [of "path_head path"]
    by (auto simp: dirname_def Let_def intro: prefix_order.trans)
  have "dirname path = path \<or> length (dirname path) < length path"
    using pre by (metis prefix_length_le le_neq_implies_less prefix_length_prefix
        prefix_order.eq_iff)
  then show "((E, s\<lparr>gets := gets s @ [path],
                  cache := (cache s)(path \<mapsto> Content content)\<rparr>, dirname path),
              (E, s, path))
             \<in> measure (\<lambda>(E, s, p). case cache s p of None \<Rightarrow> Suc (length p) | Some _ \<Rightarrow> 0)"
    using miss by (auto split: option.splits)
qed

declare get.simps [simp del]

section \<open>Filesystem methods\<close>

text \<open>
  The decorator \<open>trace\<close> calls the method and raises again what it raised, so the
  methods are modelled without it. An exception is the left summand of the result.
\<close>

definition getdent :: "'t env \<Rightarrow> 't state \<Rightarrow> string \<Rightarrow> (pyerr + 't dent) \<times> 't state" where
  "getdent E s path =
     (if path = ''/'' then (Inr (''DIR'', 0, fromtimestamp0 E), s)
      else
        (case get E s (dirname path) of
           (Inl (FileNotFoundError p), s') \<Rightarrow> (Inl (FuseOSError ENOENT), s')
         | (Inl e, s') \<Rightarrow> (Inl e, s')
         | (Inr (Listing dir), s') \<Rightarrow>
             (case map_of dir (basename path) of
                None \<Rightarrow> (Inl (FileNotFoundError path), s')
              | Some d \<Rightarrow> (Inr d, s'))
         | (Inr _, s') \<Rightarrow> (Inl (FuseOSError ENOENT), s')))"

definition W_OK :: int where "W_OK = 2"
definition X_OK :: int where "X_OK = 1"
definition O_RDONLY :: int where "O_RDONLY = 0"

text \<open>Octal \<open>0o100000\<close>, \<open>0o040000\<close> and \<open>0o100000\<close>.\<close>

definition O_LARGEFILE :: int where "O_LARGEFILE = 32768"
definition S_IFDIR :: int where "S_IFDIR = 16384"
definition S_IFREG :: int where "S_IFREG = 32768"

definition access :: "'t env \<Rightarrow> 't state \<Rightarrow> string \<Rightarrow> int \<Rightarrow> (pyerr + unit) \<times> 't state" where
  "access E s path mode =
     (if mode AND W_OK \<noteq> 0 then (Inl (FuseOSError EROFS), s)
      else
        (case getdent E s path of
           (Inl (FileNotFoundError p), s') \<Rightarrow> (Inl (FuseOSError ENOENT), s')
         | (Inl e, s') \<Rightarrow> (Inl e, s')
         | (Inr (icon, sz, mtime_dt), s') \<Rightarrow>
             if mode AND X_OK \<noteq> 0 \<and> icon \<noteq> ''DIR'' then (Inl (FuseOSError EACCES), s')
             else (Inr (), s')))"

record stat =
  st_atime :: rat
  st_ctime :: rat
  st_gid :: int
  st_mode :: int
  st_mtime :: rat
  st_nlink :: int
  st_size :: int
  st_uid :: int

text \<open>The modes \<open>0o555\<close> and \<open>0o444\<close> are 365 and 292.\<close>

definition getattr :: "'t env \<Rightarrow> 't state \<Rightarrow> string \<Rightarrow> (pyerr + stat) \<times> 't state" where
  "getattr E s path =
     (case getdent E s path of
        (Inl (FileNotFoundError p), s') \<Rightarrow> (Inl (FuseOSError ENOENT), s')
      | (Inl e, s') \<Rightarrow> (Inl e, s')
      | (Inr (icon, sz, mtime_dt), s') \<Rightarrow>
          let mtime = timestamp E mtime_dt;
              mode = (if icon = ''DIR'' then 365 else 292);
              mode = (if icon = ''DIR'' then mode OR S_IFDIR else mode OR S_IFREG)
          in (Inr \<lparr>st_atime = mtime, st_ctime = mtime, st_gid = gid E, st_mode = mode,
                   st_mtime = mtime, st_nlink = 1 + (if icon = ''DIR'' then 1 else 0),
                   st_size = sz, st_uid = uid E\<rparr>, s'))"

definition readdir :: "'t env \<Rightarrow> 't state \<Rightarrow> string \<Rightarrow> (pyerr + string list) \<times> 't state" where
  "readdir E s path =
     (case get E s path of
        (Inl e, s') \<Rightarrow> (Inl e, s')
      | (Inr (Listing entry), s') \<Rightarrow> (Inr ([''.'', ''..''] @ map fst entry), s')
      | (Inr _, s') \<Rightarrow> (Inl (FuseOSError ENOTDIR), s'))"

definition open_file :: "'t env \<Rightarrow> 't state \<Rightarrow> string \<Rightarrow> int \<Rightarrow> (pyerr + int) \<times> 't state" where
  "open_file E s path flags =
     (let flags = flags AND NOT O_LARGEFILE in
      if flags \<noteq> O_RDONLY then (Inl (FuseOSError EROFS), s)
      else
        (case get E s path of
           (Inl (FileNotFoundError p), s') \<Rightarrow> (Inl (FuseOSError ENOENT), s')
         | (Inl e, s') \<Rightarrow> (Inl e, s')
         | (Inr (Listing d), s') \<Rightarrow> (Inl (FuseOSError EISDIR), s')
         | (Inr _, s') \<Rightarrow> (Inr (fd s' + 1), s'\<lparr>fd := fd s' + 1\<rparr>)))"

text \<open>\<open>xs[a:b]\<close> for integers \<open>a\<close> and \<open>b\<close>.\<close>

definition py_slice :: "'a list \<Rightarrow> int \<Rightarrow> int \<Rightarrow> 'a list" where
  "py_slice xs a b =
     (let n = int (length xs);
          clamp = (\<lambda>i. if i < 0 then max (i + n) 0 else min i n);
          a' = clamp a; b' = clamp b
      in take (nat (b' - a')) (drop (nat a') xs))"

text \<open>
  \<open>read\<close> has no test of the kind of the entry: a slice of \<open>bytes\<close> is the result, and
  an \<open>OrderedDict\<close> indexed by a slice raises \<open>TypeError\<close> (unhashable key), as \<open>None\<close>
  does.
\<close>

definition read :: "'t env \<Rightarrow> 't state \<Rightarrow> string \<Rightarrow> int \<Rightarrow> int \<Rightarrow> (pyerr + string) \<times> 't state" where
  "read E s path len offset =
     (case get E s path of
        (Inl e, s') \<Rightarrow> (Inl e, s')
      | (Inr (Content result), s') \<Rightarrow> (Inr (py_slice result offset (offset + len)), s')
      | (Inr _, s') \<Rightarrow> (Inl TypeError, s'))"

text \<open>
  The calls that the dispatcher can make. The methods other than the five above raise
  a fixed error or return a fixed value, and neither read nor write the state.
\<close>

datatype call =
    Access string int
  | Getattr string
  | Readdir string
  | Open string int
  | Read string int int
  | Other

fun exec :: "'t env \<Rightarrow> 't state \<Rightarrow> call \<Rightarrow> 't state" where
  "exec E s (Access path mode) = snd (access E s path mode)"
| "exec E s (Getattr path) = snd (getattr E s path)"
| "exec E s (Readdir path) = snd (readdir E s path)"
| "exec E s (Open path flags) = snd (open_file E s path flags)"
| "exec E s (Read path len offset) = snd (read E s path len offset)"
| "exec E s Other = s"

definition run :: "'t env \<Rightarrow> 't state \<Rightarrow> call list \<Rightarrow> 't state" where
  "run E s calls = foldl (exec E) s calls"

section \<open>Notions used to state the properties\<close>

text \<open>\<open>Http.__init__\<close>: an empty cache; the class attribute \<open>fd\<close> is 0.\<close>

definition init :: "'t state" where
  "init = \<lparr>cache = Map.empty, fd = 0, gets = []\<rparr>"

text \<open>
  Two cache entries are of the same kind when both are the tombstone, both are the same
  file content, or both are listings with the same names in the same order.
\<close>

fun same_kind :: "'t centry \<Rightarrow> 't centry \<Rightarrow> bool" where
  "same_kind Absent e' = (e' = Absent)"
| "same_kind (Content b) e' = (e' = Content b)"
| "same_kind (Listing d) e' = (case e' of Listing d' \<Rightarrow> map fst d' = map fst d | _ \<Rightarrow> False)"

text \<open>
  What one call of \<open>_get\<close> leaves behind, with \<open>res\<close> its result and final state: the
  counter is untouched; the requests made are appended to the log, each for a path that
  was not in the cache; an entry that was in the cache is still there, of the same kind;
  and a value returned is the entry now stored for the path, never the tombstone.
\<close>

definition get_inv :: "'t state \<Rightarrow> string \<Rightarrow> (pyerr + 't centry) \<times> 't state \<Rightarrow> bool" where
  "get_inv s q res =
     (fd (snd res) = fd s \<and>
      (\<exists>new. gets (snd res) = gets s @ new \<and> (\<forall>x\<in>set new. cache s x = None)) \<and>
      (\<forall>p e. cache s p = Some e \<longrightarrow> (\<exists>e'. cache (snd res) p = Some e' \<and> same_kind e e')) \<and>
      (\<forall>c. fst res = Inr c \<longrightarrow> cache (snd res) q = Some c \<and> c \<noteq> Absent))"

text \<open>
  \<open>_get\<close> with a bound on the depth of its recursion: \<open>get_fuel n\<close> is \<open>None\<close> when the
  call would need more than \<open>n\<close> nested activations of \<open>_get\<close>, and the result of the
  call otherwise.
\<close>

fun get_fuel :: "nat \<Rightarrow> 't env \<Rightarrow> 't state \<Rightarrow> string \<Rightarrow> ((pyerr + 't centry) \<times> 't state) option" where
  "get_fuel 0 E s path = None"
| "get_fuel (Suc n) E s path =
     (case cache s path of
        Some Absent \<Rightarrow> Some (Inl (FileNotFoundError path), s)
      | Some (Listing d) \<Rightarrow> Some (Inr (Listing d), s)
      | Some (Content b) \<Rightarrow> Some (Inr (Content b), s)
      | None \<Rightarrow>
          (case requests_get E (length (gets s)) (full_path E path) of
             Inl e \<Rightarrow> Some (Inl e, s\<lparr>gets := gets s @ [path]\<rparr>)
           | Inr (status_code, content, text) \<Rightarrow>
               if status_code = 404 then
                 Some (Inl (FileNotFoundError path),
                  s\<lparr>gets := gets s @ [path], cache := (cache s)(path \<mapsto> Absent)\<rparr>)
               else if status_code \<noteq> 200 then
                 Some (Inl (FuseOSError EIO), s\<lparr>gets := gets s @ [path]\<rparr>)
               else if prefix LISTING content then
                 (case parse_listing E text of
                    Inl e \<Rightarrow> Some (Inl e, s\<lparr>gets := gets s @ [path]\<rparr>)
                  | Inr d \<Rightarrow>
                      Some (Inr (Listing d),
                       s\<lparr>gets := gets s @ [path], cache := (cache s)(path \<mapsto> Listing d)\<rparr>))
               else
                 (case get_fuel n E (s\<lparr>gets := gets s @ [path],
                                 cache := (cache s)(path \<mapsto> Content content)\<rparr>)
                         (dirname path) of
                    None \<Rightarrow> None
                  | Some (Inl e, s') \<Rightarrow> Some (Inl e, s')
                  | Some (Inr Absent, s') \<Rightarrow> Some (Inl TypeError, s')
                  | Some (Inr (Content b), s') \<Rightarrow> Some (Inl TypeError, s')
                  | Some (Inr (Listing pardir), s') \<Rightarrow>
                      (case map_of pardir (basename path) of
                         None \<Rightarrow> Some (Inl KeyError, s')
                       | Some (icon, size_, mtime_dt) \<Rightarrow>
                           let s'' = s'\<lparr>cache := (cache s')(dirname path \<mapsto>
                                 Listing (AList.update (basename path)
                                   (icon, int (length content), mtime_dt) pardir))\<rparr>
                           in (case cache s'' path of
                                 None \<Rightarrow> Some (Inl KeyError, s'')
                               | Some r \<Rightarrow> Some (Inr r, s''))))))"

text \<open>The entry lines of a body, as \<open>_parse_listing\<close> cuts them out: the lines of the
  block between the two markers, without the first and the last.\<close>

definition entry_lines :: "string \<Rightarrow> string list" where
  "entry_lines text =
     (case (str_find text ''<pre>'', str_find text ''</pre>'') of
        (Some i, Some j) \<Rightarrow>
          butlast (tl (splitlines (take (j - (i + length ''<pre>''))
            (drop (i + length ''<pre>'') text))))
      | _ \<Rightarrow> [])"

text \<open>\<open>mo.group('icon', 'url', 'name', 'date', 'time', 'size', 'sizeunit')\<close> for the
  match of an entry line, \<open>None\<close> when the line does not match.\<close>

definition match_groups :: "string \<Rightarrow> string list option" where
  "match_groups str_entry =
     map_option (\<lambda>mo. map (mo_group mo)
         [''icon'', ''url'', ''name'', ''date'', ''time'', ''size'', ''sizeunit''])
       (re_match entry_pattern str_entry)"

text \<open>The anchor text of an entry line is the group \<open>name\<close> of its match; the name of
  the entry is the anchor text without trailing separators.\<close>

definition anchor_text :: "string \<Rightarrow> string" where
  "anchor_text str_entry =
     (case re_match entry_pattern str_entry of None \<Rightarrow> [] | Some mo \<Rightarrow> mo_group mo ''name'')"

definition entry_name :: "string \<Rightarrow> string" where
  "entry_name str_entry = rstrip (CHR ''/'') (anchor_text str_entry)"

text \<open>The order in which an \<open>OrderedDict\<close> that holds the keys \<open>ks\<close> holds its
  keys after the keys \<open>ns\<close> have been assigned to, one after the other: a key that is
  new goes to the end, a key that is there keeps its place.\<close>

fun insertion_order :: "'a list \<Rightarrow> 'a list \<Rightarrow> 'a list" where
  "insertion_order ks [] = ks"
| "insertion_order ks (n # ns) = insertion_order (if n \<in> set ks then ks else ks @ [n]) ns"


section \<open>A server and some states, for the examples\<close>

definition ex_line_dir :: string where
  \<open>ex_line_dir =
     ''<img src="/icons/folder.gif" alt="[DIR]"> <a href="sub/">sub/</a>   02-Mar-2015 11:30    - ''\<close>

definition ex_line_file :: string where
  \<open>ex_line_file =
     ''<img src="/icons/text.gif" alt="[TXT]"> <a href="a.txt">a.txt</a>  01-Jan-2020 10:00   10K''\<close>

definition ex_line_big :: string where
  \<open>ex_line_big =
     ''<img src="/icons/movie.gif" alt="[VID]"> <a href="b.avi">b.avi</a>  01-Jan-2020 10:05  1.5M''\<close>

definition ex_header :: string where
  \<open>ex_header = ''<a href="?C=N;O=D">Name</a>   <a href="?C=M;O=A">Last modified</a><hr>''\<close>

definition ex_listing :: string where
  \<open>ex_listing = LISTING @ ''/</title>'' @ [CHR 0x0A] @
     ''<pre>'' @ ex_header @ [CHR 0x0A] @ ex_line_dir @ [CHR 0x0A] @ ex_line_file @ [CHR 0x0A] @
     ''<hr></pre>'' @ [CHR 0x0A]\<close>

text \<open>A listing in which a file \<open>a\<close> and a directory \<open>a/\<close> both occur.\<close>

definition ex_line_a_file :: string where
  \<open>ex_line_a_file = ''<img src="/i/t.gif" alt="[TXT]"> <a href="a">a</a> 01-Jan-2020 10:00 1K''\<close>

definition ex_line_a_dir :: string where
  \<open>ex_line_a_dir = ''<img src="/i/d.gif" alt="[DIR]"> <a href="a/">a/</a> 01-Jan-2020 10:00 -''\<close>

definition ex_clash :: string where
  \<open>ex_clash = ''<pre>Name Last modified'' @ [CHR 0x0A] @ ex_line_a_file @ [CHR 0x0A] @
     ex_line_a_dir @ [CHR 0x0A] @ ''<hr></pre>''\<close>

text \<open>
  The server: the root answers with the listing, \<open>/a.txt\<close> with five bytes, \<open>/busy\<close>
  with status 503, anything else with 404. A \<open>datetime\<close> is kept as the text it was
  parsed from.
\<close>

definition ex_server :: "nat \<Rightarrow> string \<Rightarrow> pyerr + (int \<times> string \<times> string)" where
  "ex_server n url =
     (if url = ''http://host/'' then Inr (200, ex_listing, ex_listing)
      else if url = ''http://host/a.txt'' then Inr (200, ''hello'', ''hello'')
      else if url = ''http://host/busy'' then Inr (503, [], [])
      else Inr (404, [], []))"

definition ex_env :: "string env" where
  "ex_env = \<lparr>root = ''http://host'', requests_get = ex_server, strptime = Inr,
     fromtimestamp0 = ''epoch'', timestamp = (\<lambda>t. 0), uid = 65534, gid = 65534\<rparr>"

text \<open>The state of a fresh mount of this server.\<close>

definition ex_init :: "string state" where
  "ex_init = init"

text \<open>A server whose root URL is a plain file: every URL answers with the same five
  bytes.\<close>

definition file_env :: "string env" where
  "file_env = ex_env\<lparr>requests_get := (\<lambda>n url. Inr (200, ''hello'', ''hello''))\<rparr>"

text \<open>A server that answers every URL with a page that starts as a listing does and
  holds no block of entries.\<close>

definition bad_env :: "string env" where
  "bad_env = ex_env\<lparr>requests_get := (\<lambda>n url. Inr (200, LISTING, LISTING))\<rparr>"

text \<open>The listing of the root as the parser gives it, the same listing after
  \<open>/a.txt\<close> has been fetched, and states that hold them.\<close>

definition ex_root :: "string listing" where
  "ex_root = [(''sub'', ''DIR'', 0, ''02-Mar-2015 11:30''),
              (''a.txt'', ''TXT'', 10342, ''01-Jan-2020 10:00'')]"

definition ex_root_patched :: "string listing" where
  "ex_root_patched = [(''sub'', ''DIR'', 0, ''02-Mar-2015 11:30''),
                      (''a.txt'', ''TXT'', 5, ''01-Jan-2020 10:00'')]"

definition ex_state :: "string state" where
  "ex_state = \<lparr>cache = [''/'' \<mapsto> Listing ex_root], fd = 0, gets = [''/'']\<rparr>"

definition ex_state_file :: "string state" where
  "ex_state_file = \<lparr>cache = [''/'' \<mapsto> Listing ex_root_patched,
       ''/a.txt'' \<mapsto> Content ''hello''],
     fd = 0, gets = [''/'', ''/a.txt'']\<rparr>"

definition ex_state_absent :: "string state" where
  "ex_state_absent = \<lparr>cache = [''/'' \<mapsto> Absent], fd = 0, gets = [''/'']\<rparr>"

section \<open>Properties of \<open>_get\<close>\<close>

lemma get_hit:
  "cache s p = Some e \<Longrightarrow>
   get E s p = ((case e of Absent \<Rightarrow> Inl (FileNotFoundError p) | _ \<Rightarrow> Inr e), s)"
  by (simp add: get.simps split: centry.splits)

lemma get_miss_exception:
  "cache s p = None \<Longrightarrow> requests_get E (length (gets s)) (full_path E p) = Inl e \<Longrightarrow>
   get E s p = (Inl e, s\<lparr>gets := gets s @ [p]\<rparr>)"
  by (simp add: get.simps)

lemma get_miss_404:
  "cache s p = None \<Longrightarrow> requests_get E (length (gets s)) (full_path E p) = Inr (404, body, page) \<Longrightarrow>
   get E s p = (Inl (FileNotFoundError p), s\<lparr>gets := gets s @ [p], cache := (cache s)(p \<mapsto> Absent)\<rparr>)"
  by (simp add: get.simps)

lemma get_miss_status:
  "cache s p = None \<Longrightarrow> requests_get E (length (gets s)) (full_path E p) = Inr (status, body, page) \<Longrightarrow>
   status \<noteq> 404 \<Longrightarrow> status \<noteq> 200 \<Longrightarrow>
   get E s p = (Inl (FuseOSError EIO), s\<lparr>gets := gets s @ [p]\<rparr>)"
  by (simp add: get.simps)

lemma get_miss_listing:
  "cache s p = None \<Longrightarrow> requests_get E (length (gets s)) (full_path E p) = Inr (200, body, page) \<Longrightarrow>
   prefix LISTING body \<Longrightarrow>
   get E s p = (case parse_listing E page of
                  Inl e \<Rightarrow> (Inl e, s\<lparr>gets := gets s @ [p]\<rparr>)
                | Inr d \<Rightarrow> (Inr (Listing d),
                     s\<lparr>gets := gets s @ [p], cache := (cache s)(p \<mapsto> Listing d)\<rparr>))"
  by (simp add: get.simps)

lemma same_kind_refl [simp]: "same_kind e e"
  by (cases e) auto

lemma same_kind_trans: "same_kind a b \<Longrightarrow> same_kind b c \<Longrightarrow> same_kind a c"
  by (cases a; cases b; cases c) auto

lemma get_file_branch:
  assumes "cache s p = None"
    and "requests_get E (length (gets s)) (full_path E p) = Inr (200, body, page)"
    and "\<not> prefix LISTING body"
  shows "get E s p =
    (case get E (s\<lparr>gets := gets s @ [p], cache := (cache s)(p \<mapsto> Content body)\<rparr>) (dirname p) of
       (Inl e, s') \<Rightarrow> (Inl e, s')
     | (Inr Absent, s') \<Rightarrow> (Inl TypeError, s')
     | (Inr (Content b), s') \<Rightarrow> (Inl TypeError, s')
     | (Inr (Listing pardir), s') \<Rightarrow>
         (case map_of pardir (basename p) of
            None \<Rightarrow> (Inl KeyError, s')
          | Some (icon, size_, mtime_dt) \<Rightarrow>
              let s'' = s'\<lparr>cache := (cache s')(dirname p \<mapsto>
                    Listing (AList.update (basename p) (icon, int (length body), mtime_dt) pardir))\<rparr>
              in (case cache s'' p of None \<Rightarrow> (Inl KeyError, s'') | Some r \<Rightarrow> (Inr r, s''))))"
  using assms by (subst get.simps) simp

lemma get_inv_holds: "get_inv s q (get E s q)"
proof (induction E s q rule: get.induct)
  case (1 E s path)
  show ?case
  proof (cases "cache s path")
    case (Some e)
    then show ?thesis
      by (cases e) (simp_all add: get_hit get_inv_def)
  next
    case None
    show ?thesis
    proof (cases "requests_get E (length (gets s)) (full_path E path)")
      case (Inl e)
      then show ?thesis using None by (simp add: get_miss_exception get_inv_def)
    next
      case (Inr response)
      obtain status body page where r: "response = (status, body, page)"
        by (cases response) auto
      consider "status = 404" | "status \<noteq> 404" "status \<noteq> 200"
        | "status = 200" "prefix LISTING body" | "status = 200" "\<not> prefix LISTING body"
        by auto
      then show ?thesis
      proof cases
        case 1
        then show ?thesis using None Inr r
          by (auto simp add: get_miss_404 get_inv_def)
      next
        case 2
        then show ?thesis using None Inr r
          by (simp add: get_miss_status get_inv_def)
      next
        case 3
        then show ?thesis using None Inr r
          by (auto simp add: get_miss_listing get_inv_def split: sum.splits)
      next
        case 4
        let ?s2 = "s\<lparr>gets := gets s @ [path], cache := (cache s)(path \<mapsto> Content body)\<rparr>"
        have IH: "get_inv ?s2 (dirname path) (get E ?s2 (dirname path))"
          using "1.IH" [OF None Inr [unfolded r]] 4 r by simp
        obtain r2 s3 where g: "get E ?s2 (dirname path) = (r2, s3)" by (cases "get E ?s2 (dirname path)")
        have eq: "get E s path =
          (case (r2, s3) of
             (Inl e, s') \<Rightarrow> (Inl e, s')
           | (Inr Absent, s') \<Rightarrow> (Inl TypeError, s')
           | (Inr (Content b), s') \<Rightarrow> (Inl TypeError, s')
           | (Inr (Listing pardir), s') \<Rightarrow>
               (case map_of pardir (basename path) of
                  None \<Rightarrow> (Inl KeyError, s')
                | Some (icon, size_, mtime_dt) \<Rightarrow>
                    let s'' = s'\<lparr>cache := (cache s')(dirname path \<mapsto>
                          Listing (AList.update (basename path) (icon, int (length body), mtime_dt) pardir))\<rparr>
                    in (case cache s'' path of None \<Rightarrow> (Inl KeyError, s'') | Some r \<Rightarrow> (Inr r, s''))))"
          using get_file_branch [OF None, of E body page] Inr r 4 g by simp
        from IH g have fd3: "fd s3 = fd s"
          by (simp add: get_inv_def)
        from IH g obtain new where new: "gets s3 = gets s @ path # new"
          and newc: "\<forall>x\<in>set new. cache ?s2 x = None"
          by (auto simp add: get_inv_def)
        have newc': "\<forall>x\<in>set (path # new). cache s x = None"
          using newc None by (auto split: if_splits)
        from IH g have keep2: "\<And>p e. cache ?s2 p = Some e \<Longrightarrow> \<exists>e'. cache s3 p = Some e' \<and> same_kind e e'"
          by (simp add: get_inv_def)
        have keep: "\<exists>e'. cache s3 p = Some e' \<and> same_kind e e'" if "cache s p = Some e" for p e
          using keep2 [of p e] that None by (cases "p = path") auto
        have own: "cache s3 path = Some (Content body)"
          using keep2 [of path "Content body"] by auto
        from IH g have ret: "\<And>c. r2 = Inr c \<Longrightarrow> cache s3 (dirname path) = Some c \<and> c \<noteq> Absent"
          by (simp add: get_inv_def)
        have base: "get_inv s path (Inl e, s3)" for e
          unfolding get_inv_def using fd3 new newc' keep by auto
        show ?thesis
        proof (cases r2)
          case (Inl e)
          then show ?thesis using eq base by simp
        next
          case (Inr c)
          show ?thesis
          proof (cases c)
            case Absent
            then show ?thesis using eq base Inr by simp
          next
            case (Content b)
            then show ?thesis using eq base Inr by simp
          next
            case (Listing pardir)
            show ?thesis
            proof (cases "map_of pardir (basename path)")
              case None
              then show ?thesis using eq base Inr Listing by simp
            next
              case (Some d)
              obtain icon sz mtime_dt where d: "d = (icon, sz, mtime_dt)"
                by (cases d)
              let ?upd = "AList.update (basename path) (icon, int (length body), mtime_dt) pardir"
              let ?s4 = "s3\<lparr>cache := (cache s3)(dirname path \<mapsto> Listing ?upd)\<rparr>"
              have par: "cache s3 (dirname path) = Some (Listing pardir)"
                using ret [of c] Inr Listing by simp
              have neq: "dirname path \<noteq> path"
                using par own by auto
              have res: "get E s path = (Inr (Content body), ?s4)"
                using eq Inr Listing Some d own neq by (simp add: Let_def)
              have keys: "map fst ?upd = map fst pardir"
                using Some by (auto simp add: update_keys dest: map_of_SomeD intro: rev_image_eqI)
              have keep4: "\<exists>e'. cache ?s4 p = Some e' \<and> same_kind e e'" if "cache s p = Some e" for p e
              proof (cases "p = dirname path")
                case True
                from keep [OF that] par True have "same_kind e (Listing pardir)" by auto
                then have "same_kind e (Listing ?upd)"
                  using keys by (cases e) auto
                then show ?thesis using True by simp
              next
                case False
                then show ?thesis using keep [OF that] by simp
              qed
              show ?thesis
                unfolding get_inv_def res using fd3 new newc' keep4 own neq by auto
            qed
          qed
        qed
      qed
    qed
  qed
qed

lemma get_miss_gets:
  assumes "cache s p = None"
  shows "\<exists>rest. gets (snd (get E s p)) = gets s @ p # rest"
proof (cases "requests_get E (length (gets s)) (full_path E p)")
  case (Inl e)
  then show ?thesis using assms by (simp add: get_miss_exception)
next
  case (Inr response)
  obtain status body page where r: "response = (status, body, page)"
        by (cases response) auto
  consider "status = 404" | "status \<noteq> 404" "status \<noteq> 200"
    | "status = 200" "prefix LISTING body" | "status = 200" "\<not> prefix LISTING body"
    by auto
  then show ?thesis
  proof cases
    case 1
    then show ?thesis using assms Inr r by (simp add: get_miss_404)
  next
    case 2
    then show ?thesis using assms Inr r by (simp add: get_miss_status)
  next
    case 3
    then show ?thesis using assms Inr r by (simp add: get_miss_listing split: sum.splits)
  next
    case 4
    let ?s2 = "s\<lparr>gets := gets s @ [p], cache := (cache s)(p \<mapsto> Content body)\<rparr>"
    obtain r2 s3 where g: "get E ?s2 (dirname p) = (r2, s3)"
      by (cases "get E ?s2 (dirname p)")
    have "get_inv ?s2 (dirname p) (get E ?s2 (dirname p))"
      by (rule get_inv_holds)
    then obtain new where new: "gets s3 = gets s @ p # new"
      using g by (auto simp add: get_inv_def)
    have "gets (snd (get E s p)) = gets s3"
      using get_file_branch [OF assms, of E body page] Inr r 4 g
      by (auto simp add: Let_def split: sum.splits centry.splits option.splits prod.splits)
    then show ?thesis using new by simp
  qed
qed

lemma exec_via_get:
  "exec E s c = s \<or> (\<exists>q. exec E s c = snd (get E s q)) \<or>
   (\<exists>q. exec E s c = (snd (get E s q))\<lparr>fd := fd (snd (get E s q)) + 1\<rparr>)"
proof (cases c)
  case (Access path mode)
  then show ?thesis
    by (auto simp add: access_def getdent_def split: prod.splits sum.splits pyerr.splits
        centry.splits option.splits if_splits)
      (metis snd_conv)+
next
  case (Getattr path)
  then show ?thesis
    by (auto simp add: getattr_def getdent_def Let_def split: prod.splits sum.splits pyerr.splits
        centry.splits option.splits if_splits)
      (metis snd_conv)+
next
  case (Readdir path)
  then show ?thesis
    by (auto simp add: readdir_def split: prod.splits sum.splits centry.splits)
      (metis snd_conv)+
next
  case (Open path flags)
  then show ?thesis
    by (auto simp add: open_file_def Let_def split: prod.splits sum.splits pyerr.splits
        centry.splits if_splits)
      (metis snd_conv)+
next
  case (Read path len offset)
  then show ?thesis
    by (auto simp add: read_def split: prod.splits sum.splits centry.splits)
      (metis snd_conv)+
next
  case Other
  then show ?thesis by simp
qed

lemma get_keeps:
  assumes "cache s p = Some e"
  shows "(\<exists>e'. cache (snd (get E s q)) p = Some e' \<and> same_kind e e') \<and>
         count_list (gets (snd (get E s q))) p = count_list (gets s) p"
proof -
  have inv: "get_inv s q (get E s q)" by (rule get_inv_holds)
  then obtain new where new: "gets (snd (get E s q)) = gets s @ new"
    and fresh: "\<forall>x\<in>set new. cache s x = None"
    by (auto simp add: get_inv_def)
  have "p \<notin> set new" using fresh assms by auto
  then have "count_list new p = 0" by (simp add: count_list_0_iff)
  then show ?thesis using inv assms new by (auto simp add: get_inv_def)
qed

lemma exec_keeps:
  assumes "cache s p = Some e"
  shows "(\<exists>e'. cache (exec E s c) p = Some e' \<and> same_kind e e') \<and>
         count_list (gets (exec E s c)) p = count_list (gets s) p"
  using exec_via_get [of E s c] get_keeps [OF assms, of E] assms by auto

lemma run_keeps:
  assumes "cache s p = Some e"
  shows "(\<exists>e'. cache (run E s calls) p = Some e' \<and> same_kind e e') \<and>
         count_list (gets (run E s calls)) p = count_list (gets s) p"
  using assms
proof (induction calls arbitrary: s e)
  case Nil
  then show ?case by (simp add: run_def)
next
  case (Cons c calls)
  from exec_keeps [OF Cons.prems, of E c] obtain e1 where
    e1: "cache (exec E s c) p = Some e1" "same_kind e e1"
    and cnt: "count_list (gets (exec E s c)) p = count_list (gets s) p"
    by auto
  from Cons.IH [OF e1(1)] obtain e2 where
    e2: "cache (run E (exec E s c) calls) p = Some e2" "same_kind e1 e2"
    and cnt2: "count_list (gets (run E (exec E s c) calls)) p = count_list (gets (exec E s c)) p"
    by auto
  have "run E s (c # calls) = run E (exec E s c) calls"
    by (simp add: run_def)
  then show ?case
    using e2 cnt cnt2 same_kind_trans [OF e1(2) e2(2)] by auto
qed


lemmas path_eval = full_path_def path_join_def lstrip_def rstrip_def endswith_def dirname_def
  basename_def path_head_def suffix_to_prefix

text \<open>
  Claim C6. \<open>getattr\<close> on the root path \<open>/\<close> succeeds in every state and for every
  server: it returns a directory (mode \<open>0o40555\<close>, which is 16749, and link count 2) of
  size 0 whose three times are the timestamp of \<open>datetime.fromtimestamp(0)\<close>, and it
  leaves the state as it was, so the cache is not consulted and nothing is fetched.
\<close>

theorem getattr_root:
  "getattr E s ''/'' =
     (Inr \<lparr>st_atime = timestamp E (fromtimestamp0 E), st_ctime = timestamp E (fromtimestamp0 E),
           st_gid = gid E, st_mode = 16749, st_mtime = timestamp E (fromtimestamp0 E),
           st_nlink = 2, st_size = 0, st_uid = uid E\<rparr>, s)"
  by (simp add: getattr_def getdent_def S_IFDIR_def Let_def)

text \<open>
  Claim C8. When the request for a path that is not in the cache is answered with a status
  that is neither 200 nor 404, \<open>_get\<close> raises \<open>FuseOSError(EIO)\<close>, which \<open>read\<close>,
  \<open>readdir\<close> and \<open>open\<close> pass on; the cache is left as it was, only the request is
  logged; and the next \<open>_get\<close> of the same path sends a request for it again.
\<close>

theorem get_other_status:
  assumes "cache s p = None"
    and "requests_get E (length (gets s)) (full_path E p) = Inr (status, body, page)"
    and "status \<noteq> 200" and "status \<noteq> 404"
  shows "get E s p = (Inl (FuseOSError EIO), s\<lparr>gets := gets s @ [p]\<rparr>) \<and>
         cache (snd (get E s p)) = cache s \<and>
         (\<exists>rest. gets (snd (get E (snd (get E s p)) p)) = gets s @ [p, p] @ rest) \<and>
         fst (read E s p len offset) = Inl (FuseOSError EIO) \<and>
         fst (readdir E s p) = Inl (FuseOSError EIO) \<and>
         fst (open_file E s p O_RDONLY) = Inl (FuseOSError EIO)"
proof -
  have g: "get E s p = (Inl (FuseOSError EIO), s\<lparr>gets := gets s @ [p]\<rparr>)"
    using assms by (simp add: get_miss_status)
  have "cache (s\<lparr>gets := gets s @ [p]\<rparr>) p = None"
    using assms(1) by simp
  from get_miss_gets [OF this, of E]
  have again: "\<exists>rest. gets (snd (get E (snd (get E s p)) p)) = gets s @ [p, p] @ rest"
    using g by simp
  show ?thesis
    using g again
    by (simp add: read_def readdir_def open_file_def O_RDONLY_def O_LARGEFILE_def)
qed

theorem get_other_status_witness:
  "get ex_env init ''/busy'' = (Inl (FuseOSError EIO), init\<lparr>gets := [''/busy'']\<rparr>) \<and>
   cache (snd (get ex_env init ''/busy'')) = cache init \<and>
   (\<exists>rest. gets (snd (get ex_env (snd (get ex_env init ''/busy'')) ''/busy''))
      = [''/busy'', ''/busy''] @ rest)"
proof -
  have miss: "cache (init :: string state) ''/busy'' = None"
    by (simp add: init_def)
  have log: "gets (init :: string state) = []"
    by (simp add: init_def)
  have answer: "requests_get ex_env (length (gets (init :: string state)))
      (full_path ex_env ''/busy'') = Inr (503, [], [])"
    by (simp add: ex_env_def ex_server_def path_eval)
  have other: "(503 :: int) \<noteq> 200" "(503 :: int) \<noteq> 404"
    by simp_all
  show ?thesis
    apply (insert get_other_status [OF miss answer other, of 0 0] log)
    apply (elim conjE)
    apply simp
    done
qed

text \<open>
  Claim C2, as amended. For a path whose cache entry is a listing, \<open>open\<close> fails with
  \<open>EISDIR\<close> when the flags without \<open>O_LARGEFILE\<close> are \<open>O_RDONLY\<close>, and with
  \<open>EROFS\<close> for any other flags; for a path whose cache entry is file content,
  \<open>readdir\<close> fails with \<open>ENOTDIR\<close>. The state is unchanged in each case.
\<close>

theorem kind_conflicts:
  "(cache s p = Some (Listing d) \<and> flags AND NOT O_LARGEFILE = O_RDONLY \<longrightarrow>
      open_file E s p flags = (Inl (FuseOSError EISDIR), s)) \<and>
   (cache s p = Some (Listing d) \<and> flags AND NOT O_LARGEFILE \<noteq> O_RDONLY \<longrightarrow>
      open_file E s p flags = (Inl (FuseOSError EROFS), s)) \<and>
   (cache s p = Some (Content b) \<longrightarrow>
      readdir E s p = (Inl (FuseOSError ENOTDIR), s))"
  by (simp add: open_file_def readdir_def get_hit Let_def)

theorem kind_conflicts_witness:
  "open_file ex_env ex_state ''/'' 0 = (Inl (FuseOSError EISDIR), ex_state) \<and>
   open_file ex_env ex_state ''/'' 32768 = (Inl (FuseOSError EISDIR), ex_state) \<and>
   open_file ex_env ex_state ''/'' 1 = (Inl (FuseOSError EROFS), ex_state) \<and>
   readdir ex_env ex_state_file ''/a.txt'' = (Inl (FuseOSError ENOTDIR), ex_state_file)"
  using kind_conflicts [of ex_state "''/''" ex_root 0 ex_env "[]"]
    kind_conflicts [of ex_state "''/''" ex_root 32768 ex_env "[]"]
    kind_conflicts [of ex_state "''/''" ex_root 1 ex_env "[]"]
    kind_conflicts [of ex_state_file "''/a.txt''" "[]" 0 ex_env "''hello''"]
  by (simp add: ex_state_def ex_state_file_def O_LARGEFILE_def O_RDONLY_def)

text \<open>
  Against C2 as stated: the root is cached as a listing, \<open>read\<close> on it raises
  \<open>TypeError\<close> and \<open>open\<close> with \<open>O_WRONLY\<close> fails with \<open>EROFS\<close>; neither is \<open>EISDIR\<close>.
\<close>

theorem read_directory_counterexample:
  "cache ex_state ''/'' = Some (Listing ex_root) \<and>
   read ex_env ex_state ''/'' 10 0 = (Inl TypeError, ex_state) \<and>
   open_file ex_env ex_state ''/'' 1 = (Inl (FuseOSError EROFS), ex_state)"
  by (simp add: read_def open_file_def get_hit ex_state_def O_LARGEFILE_def O_RDONLY_def)

text \<open>
  Claim C10, as amended. For a path other than \<open>/\<close> whose parent path is cached as file
  content, \<open>getattr\<close> fails with \<open>ENOENT\<close>, and so does \<open>access\<close> for a mode that
  does not ask for write access; for a mode that does, \<open>access\<close> fails with \<open>EROFS\<close>
  before the path is looked at.
\<close>

theorem child_of_file_missing:
  assumes "path \<noteq> ''/''" and "cache s (dirname path) = Some (Content b)"
  shows "getattr E s path = (Inl (FuseOSError ENOENT), s) \<and>
         (mode AND W_OK = 0 \<longrightarrow> access E s path mode = (Inl (FuseOSError ENOENT), s)) \<and>
         (mode AND W_OK \<noteq> 0 \<longrightarrow> access E s path mode = (Inl (FuseOSError EROFS), s))"
  using assms by (simp add: getattr_def access_def getdent_def get_hit)

theorem child_of_file_missing_witness:
  "getattr ex_env ex_state_file ''/a.txt/x'' = (Inl (FuseOSError ENOENT), ex_state_file) \<and>
   access ex_env ex_state_file ''/a.txt/x'' 4 = (Inl (FuseOSError ENOENT), ex_state_file) \<and>
   access ex_env ex_state_file ''/a.txt/x'' 6 = (Inl (FuseOSError EROFS), ex_state_file)"
proof -
  have nonroot: "''/a.txt/x'' \<noteq> ''/''" by simp
  have parent: "cache ex_state_file (dirname ''/a.txt/x'') = Some (Content ''hello'')"
    by (simp add: ex_state_file_def path_eval)
  show ?thesis
    using child_of_file_missing [OF nonroot parent, of ex_env 4]
      child_of_file_missing [OF nonroot parent, of ex_env 6]
    by (simp add: W_OK_def)
qed

text \<open>
  Against C10 as stated: the parent \<open>/a.txt\<close> is cached as file content, and \<open>access\<close>
  with \<open>W_OK\<close> fails with \<open>EROFS\<close>, not \<open>ENOENT\<close>.
\<close>

theorem access_write_counterexample:
  "''/a.txt/x'' \<noteq> ''/'' \<and>
   cache ex_state_file (dirname ''/a.txt/x'') = Some (Content ''hello'') \<and>
   access ex_env ex_state_file ''/a.txt/x'' 2 = (Inl (FuseOSError EROFS), ex_state_file)"
  by (simp add: access_def W_OK_def ex_state_file_def path_eval)

text \<open>
  Claim C7. The checks of \<open>access\<close>, in their order: a mode that asks for write access
  is refused (with error number \<open>EROFS\<close>); otherwise a path that is absent (its parent
  is the tombstone or a file, the parent listing has no entry of that name, or the
  request for the parent is answered 404) fails with \<open>ENOENT\<close>; otherwise a mode that
  asks for execute on an entry that is not a directory fails with \<open>EACCES\<close>; otherwise,
  for an entry of the cached parent listing, and for the root, the call succeeds.
\<close>

theorem access_outcomes:
  "(mode AND W_OK \<noteq> 0 \<longrightarrow> access E s path mode = (Inl (FuseOSError EROFS), s)) \<and>
   (mode AND W_OK = 0 \<and> path \<noteq> ''/'' \<and>
      (cache s (dirname path) = Some Absent \<or>
       cache s (dirname path) = Some (Content b) \<or>
       (cache s (dirname path) = Some (Listing d) \<and> map_of d (basename path) = None)) \<longrightarrow>
      access E s path mode = (Inl (FuseOSError ENOENT), s)) \<and>
   (mode AND W_OK = 0 \<and> path \<noteq> ''/'' \<and> cache s (dirname path) = None \<and>
      requests_get E (length (gets s)) (full_path E (dirname path)) = Inr (404, body, page) \<longrightarrow>
      fst (access E s path mode) = Inl (FuseOSError ENOENT)) \<and>
   (mode AND W_OK = 0 \<and> mode AND X_OK \<noteq> 0 \<and> path \<noteq> ''/'' \<and>
      cache s (dirname path) = Some (Listing d) \<and>
      map_of d (basename path) = Some (icon, sz, mtime) \<and> icon \<noteq> ''DIR'' \<longrightarrow>
      access E s path mode = (Inl (FuseOSError EACCES), s)) \<and>
   (mode AND W_OK = 0 \<and> (mode AND X_OK = 0 \<or> icon = ''DIR'') \<and> path \<noteq> ''/'' \<and>
      cache s (dirname path) = Some (Listing d) \<and>
      map_of d (basename path) = Some (icon, sz, mtime) \<longrightarrow>
      access E s path mode = (Inr (), s)) \<and>
   (mode AND W_OK = 0 \<longrightarrow> access E s ''/'' mode = (Inr (), s))"
  by (auto simp add: access_def getdent_def get_hit get_miss_404)

theorem access_outcomes_witness:
  "access ex_env ex_state ''/a.txt'' 2 = (Inl (FuseOSError EROFS), ex_state) \<and>
   access ex_env ex_state ''/nope'' 4 = (Inl (FuseOSError ENOENT), ex_state) \<and>
   fst (access ex_env ex_state ''/zz/f'' 4) = Inl (FuseOSError ENOENT) \<and>
   access ex_env ex_state ''/a.txt'' 1 = (Inl (FuseOSError EACCES), ex_state) \<and>
   access ex_env ex_state ''/a.txt'' 4 = (Inr (), ex_state) \<and>
   access ex_env ex_state ''/sub'' 1 = (Inr (), ex_state) \<and>
   access ex_env ex_state ''/'' 5 = (Inr (), ex_state)"
proof -
  have root: "cache ex_state (dirname p) = Some (Listing ex_root)"
    if "dirname p = ''/''" for p
    using that by (simp add: ex_state_def)
  have d1: "dirname ''/a.txt'' = ''/''" "dirname ''/nope'' = ''/''" "dirname ''/sub'' = ''/''"
    "dirname ''/zz/f'' = ''/zz''"
    by (simp_all add: path_eval)
  have b1: "basename ''/a.txt'' = ''a.txt''" "basename ''/nope'' = ''nope''"
    "basename ''/sub'' = ''sub''"
    by (simp_all add: path_eval)
  have zz: "cache ex_state (dirname ''/zz/f'') = None"
    "requests_get ex_env (length (gets ex_state)) (full_path ex_env (dirname ''/zz/f''))
       = Inr (404, [], [])"
    by (simp_all add: d1 ex_state_def ex_env_def ex_server_def path_eval)
  have look: "map_of ex_root (basename ''/a.txt'') = Some (''TXT'', 10342, ''01-Jan-2020 10:00'')"
    "map_of ex_root (basename ''/sub'') = Some (''DIR'', 0, ''02-Mar-2015 11:30'')"
    "map_of ex_root (basename ''/nope'') = None"
    by (simp_all add: b1 ex_root_def)
  show ?thesis
    using access_outcomes [where mode = 2 and path = "''/a.txt''" and s = ex_state and E = ex_env
        and b = "[]" and body = "[]" and page = "[]" and d = ex_root and icon = "[]" and sz = 0
        and mtime = "[]"]
      access_outcomes [where mode = 4 and path = "''/nope''" and s = ex_state and E = ex_env
        and b = "[]" and body = "[]" and page = "[]" and d = ex_root and icon = "[]" and sz = 0
        and mtime = "[]"]
      access_outcomes [where mode = 4 and path = "''/zz/f''" and s = ex_state and E = ex_env
        and b = "[]" and body = "[]" and page = "[]" and d = ex_root and icon = "[]" and sz = 0
        and mtime = "[]"]
      access_outcomes [where mode = 1 and path = "''/a.txt''" and s = ex_state and E = ex_env
        and b = "[]" and body = "[]" and page = "[]" and d = ex_root and icon = "''TXT''" and sz = 10342
        and mtime = "''01-Jan-2020 10:00''"]
      access_outcomes [where mode = 4 and path = "''/a.txt''" and s = ex_state and E = ex_env
        and b = "[]" and body = "[]" and page = "[]" and d = ex_root and icon = "''TXT''" and sz = 10342
        and mtime = "''01-Jan-2020 10:00''"]
      access_outcomes [where mode = 1 and path = "''/sub''" and s = ex_state and E = ex_env
        and b = "[]" and body = "[]" and page = "[]" and d = ex_root and icon = "''DIR''" and sz = 0
        and mtime = "''02-Mar-2015 11:30''"]
      access_outcomes [where mode = 5 and path = "''/''" and s = ex_state and E = ex_env
        and b = "[]" and body = "[]" and page = "[]" and d = ex_root and icon = "[]" and sz = 0
        and mtime = "[]"]
      root [OF d1(1)] root [OF d1(2)] root [OF d1(3)] zz look
    by (simp add: W_OK_def X_OK_def)
qed

text \<open>
  Claim C4, as amended. Once a path has an entry in the cache, no call sends a request
  for it again: \<open>_get\<close> answers from the cache and leaves the state as it was (raising
  \<open>FileNotFoundError\<close> for the tombstone, returning the entry otherwise), and after any
  sequence of calls the number of requests logged for the path is what it was and the
  entry is still of the same kind. A path that is not in the cache and whose request is
  answered with a status other than 200 and 404, or with a listing that the parser
  rejects, makes \<open>_get\<close> raise, gets no cache entry (the cache is left as it was), and
  is requested again by the next \<open>_get\<close>.
\<close>

theorem cached_not_fetched_again:
  "(cache s p = Some e \<longrightarrow>
      get E s p = ((if e = Absent then Inl (FileNotFoundError p) else Inr e), s) \<and>
      count_list (gets (run E s calls)) p = count_list (gets s) p \<and>
      (\<exists>e'. cache (run E s calls) p = Some e' \<and> same_kind e e')) \<and>
   (cache s p = None \<and>
    requests_get E (length (gets s)) (full_path E p) = Inr (status, body, page) \<and>
    (status \<noteq> 200 \<and> status \<noteq> 404 \<or>
     status = 200 \<and> prefix LISTING body \<and> parse_listing E page = Inl err) \<longrightarrow>
      (\<exists>x. fst (get E s p) = Inl x) \<and>
      cache (snd (get E s p)) = cache s \<and>
      (\<exists>rest. gets (snd (get E (snd (get E s p)) p)) = gets s @ [p, p] @ rest))"
proof (intro conjI impI)
  assume c: "cache s p = Some e"
  show "get E s p = ((if e = Absent then Inl (FileNotFoundError p) else Inr e), s)"
    using c by (cases e) (simp_all add: get_hit)
  show "count_list (gets (run E s calls)) p = count_list (gets s) p"
    using run_keeps [OF c, of E calls] by simp
  show "\<exists>e'. cache (run E s calls) p = Some e' \<and> same_kind e e'"
    using run_keeps [OF c, of E calls] by simp
next
  assume h: "cache s p = None \<and>
    requests_get E (length (gets s)) (full_path E p) = Inr (status, body, page) \<and>
    (status \<noteq> 200 \<and> status \<noteq> 404 \<or>
     status = 200 \<and> prefix LISTING body \<and> parse_listing E page = Inl err)"
  then have miss: "cache s p = None"
    and answer: "requests_get E (length (gets s)) (full_path E p) = Inr (status, body, page)"
    by simp_all
  have "\<exists>x. get E s p = (Inl x, s\<lparr>gets := gets s @ [p]\<rparr>)"
  proof (cases "status = 200")
    case True
    then show ?thesis
      using h get_miss_listing [OF miss, of E body page] by simp
  next
    case False
    then show ?thesis
      using h get_miss_status [OF miss answer] by simp
  qed
  then obtain x where g: "get E s p = (Inl x, s\<lparr>gets := gets s @ [p]\<rparr>)" ..
  have "cache (s\<lparr>gets := gets s @ [p]\<rparr>) p = None"
    using miss by simp
  from get_miss_gets [OF this, of E]
  have again: "\<exists>rest. gets (snd (get E (snd (get E s p)) p)) = gets s @ [p, p] @ rest"
    using g by simp
  show "\<exists>x. fst (get E s p) = Inl x"
    using g by simp
  show "cache (snd (get E s p)) = cache s"
    using g by simp
  show "\<exists>rest. gets (snd (get E (snd (get E s p)) p)) = gets s @ [p, p] @ rest"
    by (rule again)
qed

theorem cached_not_fetched_again_witness:
  "get ex_env ex_state_absent ''/'' = (Inl (FileNotFoundError ''/''), ex_state_absent) \<and>
   count_list (gets (run ex_env ex_state_absent [Readdir ''/'', Getattr ''/x'', Open ''/'' 0])) ''/''
     = 1 \<and>
   cache (run ex_env ex_state_absent [Readdir ''/'', Getattr ''/x'', Open ''/'' 0]) ''/''
     = Some Absent \<and>
   cache (snd (get ex_env ex_init ''/busy'')) = cache ex_init \<and>
   (\<exists>rest. gets (snd (get ex_env (snd (get ex_env ex_init ''/busy'')) ''/busy''))
      = gets ex_init @ [''/busy'', ''/busy''] @ rest) \<and>
   cache (snd (get bad_env ex_init ''/'')) = cache ex_init \<and>
   (\<exists>rest. gets (snd (get bad_env (snd (get bad_env ex_init ''/'')) ''/''))
      = gets ex_init @ [''/'', ''/''] @ rest)"
proof -
  let ?calls = "[Readdir ''/'', Getattr ''/x'', Open ''/'' 0]"
  have c: "cache ex_state_absent ''/'' = Some Absent"
    by (simp add: ex_state_absent_def)
  have n: "count_list (gets ex_state_absent) ''/'' = 1"
    by (simp add: ex_state_absent_def)
  note hit = cached_not_fetched_again [where s = ex_state_absent and p = "''/''" and e = Absent
      and E = ex_env and calls = ?calls, THEN conjunct1, THEN mp, OF c]
  have first: "get ex_env ex_state_absent ''/'' = (Inl (FileNotFoundError ''/''), ex_state_absent)"
    "count_list (gets (run ex_env ex_state_absent ?calls)) ''/'' = 1"
    "cache (run ex_env ex_state_absent ?calls) ''/'' = Some Absent"
    using hit n by auto
  have miss: "cache ex_init p = None" for p
    by (simp add: ex_init_def init_def)
  have busy: "requests_get ex_env (length (gets ex_init)) (full_path ex_env ''/busy'')
      = Inr (503, [], [])"
    by (simp add: ex_env_def ex_server_def path_eval)
  have bad: "requests_get bad_env (length (gets ex_init)) (full_path bad_env ''/'')
      = Inr (200, LISTING, LISTING)"
    by (simp add: bad_env_def)
  have rejected: "parse_listing bad_env LISTING = Inl AssertionError"
    by (simp add: parse_listing_def str_count_def LISTING_def)
  have other: "(503 :: int) \<noteq> 200 \<and> (503 :: int) \<noteq> 404 \<or>
      (503 :: int) = 200 \<and> prefix LISTING [] \<and> parse_listing ex_env [] = Inl AssertionError"
    by simp
  have listing: "(200 :: int) \<noteq> 200 \<and> (200 :: int) \<noteq> 404 \<or>
      (200 :: int) = 200 \<and> prefix LISTING LISTING \<and> parse_listing bad_env LISTING = Inl AssertionError"
    using rejected by simp
  note at_busy = cached_not_fetched_again [where s = ex_init and p = "''/busy''" and E = ex_env
      and status = 503 and body = "[]" and page = "[]" and err = AssertionError,
      THEN conjunct2, THEN mp, OF conjI [OF miss conjI [OF busy other]]]
  note at_bad = cached_not_fetched_again [where s = ex_init and p = "''/''" and E = bad_env
      and status = 200 and body = LISTING and page = LISTING and err = AssertionError,
      THEN conjunct2, THEN mp, OF conjI [OF miss conjI [OF bad listing]]]
  show ?thesis
    using first at_busy at_bad by blast
qed

text \<open>
  Against C4 as stated: the path \<open>/busy\<close> is answered 503 each time, and two calls of
  \<open>readdir\<close> send two requests for it.
\<close>

theorem refetch_counterexample:
  "gets (run ex_env init [Readdir ''/busy'', Readdir ''/busy'']) = [''/busy'', ''/busy''] \<and>
   count_list (gets (run ex_env init [Readdir ''/busy'', Readdir ''/busy''])) ''/busy'' = 2"
proof -
  have answer: "requests_get ex_env n (full_path ex_env ''/busy'') = Inr (503, [], [])" for n
    by (simp add: ex_env_def ex_server_def path_eval)
  have g1: "get ex_env init ''/busy'' = (Inl (FuseOSError EIO), init\<lparr>gets := [''/busy'']\<rparr>)"
    using get_miss_status [where s = init and p = "''/busy''" and E = ex_env and status = 503
        and body = "[]" and page = "[]"] answer
    by (simp add: init_def)
  have g2: "get ex_env (init\<lparr>gets := [''/busy'']\<rparr>) ''/busy''
      = (Inl (FuseOSError EIO), init\<lparr>gets := [''/busy'', ''/busy'']\<rparr>)"
    using get_miss_status [where s = "init\<lparr>gets := [''/busy'']\<rparr>" and p = "''/busy''"
        and E = ex_env and status = 503 and body = "[]" and page = "[]"] answer
    by (simp add: init_def)
  show ?thesis
    by (simp add: run_def readdir_def g1 g2)
qed

subsection \<open>The parent path\<close>

lemma path_head_prefix: "prefix (path_head p) p"
proof -
  have "p = rev (dropWhile (\<lambda>c. c \<noteq> CHR ''/'') (rev p)) @
            rev (takeWhile (\<lambda>c. c \<noteq> CHR ''/'') (rev p))"
    by (metis rev_append rev_rev_ident takeWhile_dropWhile_id)
  then show ?thesis
    unfolding path_head_def by (metis prefixI)
qed

lemma rstrip_prefix: "prefix (rstrip c h) h"
proof -
  have "h = rev (dropWhile (\<lambda>x. x = c) (rev h)) @ rev (takeWhile (\<lambda>x. x = c) (rev h))"
    by (metis rev_append rev_rev_ident takeWhile_dropWhile_id)
  then show ?thesis
    unfolding rstrip_def by (metis prefixI)
qed

lemma dirname_prefix: "prefix (dirname p) p"
  using path_head_prefix [of p] rstrip_prefix [of "CHR ''/''" "path_head p"]
  by (auto simp: dirname_def Let_def intro: prefix_order.trans)

lemma dirname_shorter: "dirname p = p \<or> length (dirname p) < length p"
  using dirname_prefix [of p]
  by (metis prefix_length_le le_neq_implies_less prefix_length_prefix prefix_order.eq_iff)

lemma path_head_last: "path_head p \<noteq> [] \<Longrightarrow> last (path_head p) = CHR ''/''"
proof -
  assume "path_head p \<noteq> []"
  then have ne: "dropWhile (\<lambda>c. c \<noteq> CHR ''/'') (rev p) \<noteq> []"
    by (simp add: path_head_def)
  then have "hd (dropWhile (\<lambda>c. c \<noteq> CHR ''/'') (rev p)) = CHR ''/''"
    using hd_dropWhile [of "\<lambda>c. c \<noteq> CHR ''/''" "rev p"] by auto
  then show ?thesis
    using ne by (simp add: path_head_def last_rev)
qed

lemma rstrip_last_shorter:
  assumes "h \<noteq> []" and "last h = c"
  shows "length (rstrip c h) < length h"
proof -
  obtain x xs where r: "rev h = x # xs"
    using assms(1) by (cases "rev h") auto
  then have "x = c"
    using assms by (metis hd_rev list.sel(1))
  then have "length (dropWhile (\<lambda>x. x = c) (rev h)) \<le> length xs"
    using r by (simp add: length_dropWhile_le)
  then show ?thesis
    using r by (simp add: rstrip_def)
qed

lemma dirname_fixed: "dirname p = p \<longleftrightarrow> set p \<subseteq> {CHR ''/''}"
proof
  assume fixed: "dirname p = p"
  show "set p \<subseteq> {CHR ''/''}"
  proof (cases "path_head p \<noteq> [] \<and> path_head p \<noteq> replicate (length (path_head p)) (CHR ''/'')")
    case True
    then have "dirname p = rstrip (CHR ''/'') (path_head p)"
      by (simp add: dirname_def Let_def)
    moreover have "length (rstrip (CHR ''/'') (path_head p)) < length (path_head p)"
      using True path_head_last [of p] by (intro rstrip_last_shorter) auto
    moreover have "length (path_head p) \<le> length p"
      using path_head_prefix [of p] by (rule prefix_length_le)
    ultimately show ?thesis using fixed by simp
  next
    case False
    then have "dirname p = path_head p"
      by (auto simp add: dirname_def Let_def)
    then have "p = [] \<or> p = replicate (length p) (CHR ''/'')"
      using False fixed by auto
    then show ?thesis
      by (metis empty_set empty_subsetI set_replicate_conv_if subset_refl)
  qed
next
  assume all: "set p \<subseteq> {CHR ''/''}"
  then have "dropWhile (\<lambda>c. c \<noteq> CHR ''/'') (rev p) = rev p"
    by (cases "rev p") auto
  then have h: "path_head p = p"
    by (simp add: path_head_def)
  have "p = replicate (length p) (CHR ''/'')"
    using all by (induction p) auto
  then show "dirname p = p"
    using h by (simp add: dirname_def Let_def)
qed

subsection \<open>The depth of the recursion\<close>

lemma get_fuel_enough:
  "(case cache s p of None \<Rightarrow> length p + 2 | Some _ \<Rightarrow> 1) \<le> n \<Longrightarrow>
   get_fuel n E s p = Some (get E s p)"
proof (induction E s p arbitrary: n rule: get.induct)
  case (1 E s path)
  from "1.prems" obtain m where n: "n = Suc m"
    by (cases n) (auto split: option.splits)
  show ?case
  proof (cases "cache s path")
    case (Some e)
    then show ?thesis
      by (cases e) (simp_all add: n get.simps)
  next
    case None
    show ?thesis
    proof (cases "requests_get E (length (gets s)) (full_path E path)")
      case (Inl e)
      then show ?thesis using None by (simp add: n get.simps)
    next
      case (Inr response)
      obtain status body page where r: "response = (status, body, page)"
        by (cases response) auto
      show ?thesis
      proof (cases "status = 200 \<and> \<not> prefix LISTING body")
        case False
        then show ?thesis
          using None Inr r by (auto simp add: n get.simps split: sum.splits)
      next
        case True
        let ?s2 = "s\<lparr>gets := gets s @ [path], cache := (cache s)(path \<mapsto> Content body)\<rparr>"
        have fuel: "(case cache ?s2 (dirname path) of None \<Rightarrow> length (dirname path) + 2 | Some _ \<Rightarrow> 1) \<le> m"
          using "1.prems" None n dirname_shorter [of path]
          by (auto split: option.splits)
        have "get_fuel m E ?s2 (dirname path) = Some (get E ?s2 (dirname path))"
          using "1.IH" [OF None Inr [unfolded r], where n = m] True fuel by simp
        then show ?thesis
          using None Inr r True
          by (simp add: n get.simps [of E s path] Let_def
              split: prod.splits sum.splits centry.splits option.splits)
      qed
    qed
  qed
qed

text \<open>
  Claim C9, as amended. The recursion of \<open>_get\<close> into the parent path ends for every
  path, state and server: with room for \<open>length path + 2\<close> nested activations the call
  returns, and its result is that of \<open>get\<close>. The parent path \<open>os.path.dirname(path)\<close>
  is strictly shorter than \<open>path\<close>, except when \<open>path\<close> consists of separators only (as
  the root \<open>/\<close> does): then it is \<open>path\<close> itself. In that case, when the server
  answers the path with a body that is not a listing, the body is stored as file
  content, the nested call finds it in the cache, and \<open>_get\<close> raises \<open>TypeError\<close>.
\<close>

theorem get_recursion_ends:
  "get_fuel (length path + 2) E s path = Some (get E s path) \<and>
   (dirname path = path \<or> length (dirname path) < length path) \<and>
   (dirname path = path \<longleftrightarrow> set path \<subseteq> {CHR ''/''}) \<and>
   (dirname path = path \<and> cache s path = None \<and>
      requests_get E (length (gets s)) (full_path E path) = Inr (200, body, page) \<and>
      \<not> prefix LISTING body \<longrightarrow>
      get E s path = (Inl TypeError,
        s\<lparr>gets := gets s @ [path], cache := (cache s)(path \<mapsto> Content body)\<rparr>))"
proof -
  have "get_fuel (length path + 2) E s path = Some (get E s path)"
    by (rule get_fuel_enough) (simp split: option.splits)
  moreover have "get E s path = (Inl TypeError,
        s\<lparr>gets := gets s @ [path], cache := (cache s)(path \<mapsto> Content body)\<rparr>)"
    if "dirname path = path" and miss: "cache s path = None"
      and "requests_get E (length (gets s)) (full_path E path) = Inr (200, body, page)"
      and "\<not> prefix LISTING body"
    using get_file_branch [OF miss that(3) that(4)] that(1) by (simp add: get_hit)
  ultimately show ?thesis
    using dirname_shorter [of path] dirname_fixed [of path] by blast
qed

lemma root_as_file:
  "get file_env ex_init ''/'' =
     (Inl TypeError, \<lparr>cache = [''/'' \<mapsto> Content ''hello''], fd = 0, gets = [''/'']\<rparr>)"
proof -
  let ?s2 = "ex_init\<lparr>gets := gets ex_init @ [''/''],
      cache := (cache ex_init)(''/'' \<mapsto> Content ''hello'')\<rparr>"
  have root: "dirname ''/'' = ''/''"
    by (simp add: path_eval)
  have miss: "cache ex_init ''/'' = None"
    by (simp add: ex_init_def init_def)
  have answer: "requests_get file_env (length (gets ex_init))
      (full_path file_env ''/'') = Inr (200, ''hello'', ''hello'')"
    by (simp add: file_env_def)
  have plain: "\<not> prefix LISTING ''hello''"
    by (simp add: LISTING_def)
  have hit: "get file_env ?s2 ''/'' = (Inr (Content ''hello''), ?s2)"
    using get_hit [of ?s2 "''/''" "Content ''hello''" file_env] by simp
  have "get file_env ex_init ''/'' = (Inl TypeError, ?s2)"
    using get_file_branch [OF miss answer plain] by (simp add: root hit)
  then show ?thesis
    by (simp add: ex_init_def init_def)
qed

theorem get_recursion_ends_witness:
  "get_fuel (length ''/'' + 2) file_env ex_init ''/'' = Some (get file_env ex_init ''/'') \<and>
   get file_env ex_init ''/'' =
     (Inl TypeError, ex_init\<lparr>gets := gets ex_init @ [''/''],
        cache := (cache ex_init)(''/'' \<mapsto> Content ''hello'')\<rparr>) \<and>
   length (dirname ''/a/b'') < length ''/a/b''"
proof -
  have root: "dirname ''/'' = ''/''" and sub: "dirname ''/a/b'' \<noteq> ''/a/b''"
    by (simp_all add: path_eval)
  have miss: "cache ex_init ''/'' = None"
    by (simp add: ex_init_def init_def)
  have answer: "requests_get file_env (length (gets ex_init))
      (full_path file_env ''/'') = Inr (200, ''hello'', ''hello'')"
    by (simp add: file_env_def)
  have plain: "\<not> prefix LISTING ''hello''"
    by (simp add: LISTING_def)
  note at_root = get_recursion_ends [of "''/''" file_env ex_init "''hello''" "''hello''"]
  note at_sub = get_recursion_ends [of "''/a/b''" file_env ex_init "''hello''" "''hello''"]
  have enough: "get_fuel (length ''/'' + 2) file_env ex_init ''/'' = Some (get file_env ex_init ''/'')"
    by (rule at_root [THEN conjunct1])
  have result: "get file_env ex_init ''/'' =
     (Inl TypeError, ex_init\<lparr>gets := gets ex_init @ [''/''],
        cache := (cache ex_init)(''/'' \<mapsto> Content ''hello'')\<rparr>)"
    by (rule at_root [THEN conjunct2, THEN conjunct2, THEN conjunct2, THEN mp])
      (intro conjI root miss answer plain)
  have "dirname ''/a/b'' = ''/a/b'' \<or> length (dirname ''/a/b'') < length ''/a/b''"
    by (rule at_sub [THEN conjunct2, THEN conjunct1])
  then have shorter: "length (dirname ''/a/b'') < length ''/a/b''"
    using sub by blast
  show ?thesis
    by (intro conjI enough result shorter)
qed

text \<open>
  Against C9 as stated: for a server whose root answers with a plain body, the parent of
  \<open>/\<close> is \<open>/\<close>, which is not shorter, and \<open>_get\<close> stores the root as file content.
\<close>

theorem root_as_file_counterexample:
  "dirname ''/'' = ''/'' \<and> \<not> length (dirname ''/'') < length ''/'' \<and>
   get file_env ex_init ''/'' =
     (Inl TypeError, \<lparr>cache = [''/'' \<mapsto> Content ''hello''], fd = 0, gets = [''/'']\<rparr>)"
  using root_as_file by (simp add: path_eval)

subsection \<open>The size written into the parent listing\<close>






subsection \<open>The parser\<close>

lemmas class_eval = is_digit_def is_space_def is_word_def not_quote_def not_lt_def is_sizechr_def
  is_linebreak_def

lemmas re_eval = re_match_def entry_pattern_def open_grp_def close_grp_def mo_group_def class_eval

lemma bit_length_0: "bit_length 0 = 0"
  by (simp add: bit_length.simps)

lemma bit_length_1: "bit_length (Suc 0) = Suc 0"
  by (simp add: bit_length.simps)

lemma bit_length_numeral: "bit_length (numeral k) = Suc (bit_length (numeral k div 2))"
  by (subst bit_length.simps) simp

lemmas float_eval = bit_length_0 bit_length_1 bit_length_numeral
  floor_log2_def [of "numeral a" "numeral b"] floor_log2_def [of "Suc 0" "numeral b"]
  floor_log2_def [of "numeral a" "Suc 0"] floor_log2_def [of "Suc 0" "Suc 0"]
  round_half_even_def [of "numeral a" "numeral b"] round_half_even_def [of "Suc 0" "numeral b"]
  round_half_even_def [of "numeral a" "Suc 0"] round_half_even_def [of "Suc 0" "Suc 0"]
  to_double_def [of "numeral a" "numeral b"] to_double_def [of "Suc 0" "numeral b"]
  to_double_def [of "numeral a" "Suc 0"] to_double_def [of "Suc 0" "Suc 0"]
  to_double_def [of 0 b]
  float_add_def float_mul_pow2_def to_fraction_def py_int_def Let_def for a b

lemma decode_10K: "decode_size ''10'' ''K'' = Inr 10342"
  by (simp add: decode_size_def py_float_def sizes_def float_eval class_eval)

lemma decode_1_5M: "decode_size ''1.5'' ''M'' = Inr 1677721"
  by (simp add: decode_size_def py_float_def sizes_def float_eval class_eval)

lemma decode_dash: "decode_size ''-'' u = Inr 0"
  by (simp add: decode_size_def)

lemma py_int_nonneg: "py_int x = Inr n \<Longrightarrow> 0 \<le> n"
  by (cases x) (auto simp add: py_int_def Let_def)

lemma decode_size_nonneg: "decode_size a u = Inr n \<Longrightarrow> 0 \<le> n"
  by (auto simp add: decode_size_def py_int_nonneg split: if_splits sum.splits)

lemma parse_entry_ok:
  assumes "parse_entry E l = Inr (name, icon, sz, mtime)"
  shows "\<exists>mo. re_match entry_pattern l = Some mo \<and>
           name = rstrip (CHR ''/'') (mo_group mo ''name'') \<and>
           icon = mo_group mo ''icon'' \<and>
           mo_group mo ''url'' = mo_group mo ''name'' \<and>
           endswith (mo_group mo ''name'') ''/'' = (icon = ''DIR'') \<and>
           strptime E (mo_group mo ''date'' @ '' '' @ mo_group mo ''time'') = Inr mtime \<and>
           decode_size (mo_group mo ''size'') (mo_group mo ''sizeunit'') = Inr sz"
  using assms
  by (auto simp add: parse_entry_def Let_def split: option.splits if_splits sum.splits)

lemma parse_entry_name:
  "parse_entry E l = Inr (name, d) \<Longrightarrow> name = entry_name l"
  by (cases d) (auto simp add: entry_name_def anchor_text_def dest!: parse_entry_ok)

lemma update_fresh: "k \<notin> fst ` set al \<Longrightarrow> AList.update k v al = al @ [(k, v)]"
  by (induction al) auto

lemma parse_entries_fresh:
  assumes "parse_entries E acc ls = Inr res"
    and "distinct (map entry_name ls)"
    and "fst ` set acc \<inter> set (map entry_name ls) = {}"
  shows "res = acc @ map (\<lambda>l. projr (parse_entry E l)) ls \<and>
         (\<forall>l\<in>set ls. \<exists>d. parse_entry E l = Inr (entry_name l, d))"
  using assms
proof (induction ls arbitrary: acc)
  case Nil
  then show ?case by simp
next
  case (Cons l ls)
  from Cons.prems(1) obtain name d where
    p: "parse_entry E l = Inr (name, d)"
    and rest: "parse_entries E (AList.update name d acc) ls = Inr res"
    by (auto split: sum.splits)
  have name: "name = entry_name l"
    using p by (rule parse_entry_name)
  have fresh: "name \<notin> fst ` set acc"
    using Cons.prems(3) name by auto
  then have upd: "AList.update name d acc = acc @ [(name, d)]"
    by (rule update_fresh)
  have "fst ` set (acc @ [(name, d)]) \<inter> set (map entry_name ls) = {}"
    using Cons.prems(2,3) name by auto
  from Cons.IH [OF rest [unfolded upd] _ this] Cons.prems(2)
  show ?case
    using p name by (auto simp del: split_paired_Ex)
qed

lemma parse_listing_entries:
  "parse_listing E page = Inr res \<Longrightarrow> parse_entries E [] (entry_lines page) = Inr res"
  by (auto simp add: parse_listing_def entry_lines_def Let_def
      split: if_splits option.splits prod.splits)

lemma insertion_order_set: "set (insertion_order ks ns) = set ks \<union> set ns"
  by (induction ns arbitrary: ks) auto

lemma insertion_order_distinct: "distinct ks \<Longrightarrow> distinct (insertion_order ks ns)"
  by (induction ns arbitrary: ks) auto

lemma insertion_order_fresh: "distinct ns \<Longrightarrow> set ks \<inter> set ns = {} \<Longrightarrow> insertion_order ks ns = ks @ ns"
  by (induction ns arbitrary: ks) auto

lemma parse_entries_keys:
  "parse_entries E acc ls = Inr res \<Longrightarrow>
   map fst res = insertion_order (map fst acc) (map entry_name ls)"
proof (induction ls arbitrary: acc)
  case Nil
  then show ?case by simp
next
  case (Cons l ls)
  from Cons.prems obtain name d where
    p: "parse_entry E l = Inr (name, d)"
    and rest: "parse_entries E (AList.update name d acc) ls = Inr res"
    by (auto split: sum.splits)
  have name: "name = entry_name l"
    using p by (rule parse_entry_name)
  show ?case
    using Cons.IH [OF rest] name by (simp add: update_keys)
qed

text \<open>
  Claim C5, as amended. For a body that \<open>_parse_listing\<close> accepts, the names of the
  result are the anchor texts of the entry lines without their trailing separators,
  each once, in the order in which they first appear. When these names are pairwise
  distinct, the result holds one item for each entry line, in the order of the lines,
  the item of a line being what the line parses to, and stripping the trailing
  separators maps the anchor texts of the lines one-to-one onto the names.
\<close>

theorem parse_listing_order:
  assumes "parse_listing E page = Inr result"
  shows "map fst result = insertion_order [] (map entry_name (entry_lines page)) \<and>
         distinct (map fst result) \<and>
         set (map fst result) = rstrip (CHR ''/'') ` anchor_text ` set (entry_lines page) \<and>
         (distinct (map entry_name (entry_lines page)) \<longrightarrow>
            map fst result = map (\<lambda>l. rstrip (CHR ''/'') (anchor_text l)) (entry_lines page) \<and>
            result = map (\<lambda>l. projr (parse_entry E l)) (entry_lines page) \<and>
            bij_betw (rstrip (CHR ''/'')) (anchor_text ` set (entry_lines page))
              (set (map fst result)))"
proof -
  let ?ls = "entry_lines page"
  note entries = parse_listing_entries [OF assms]
  have order: "map fst result = insertion_order [] (map entry_name ?ls)"
    using parse_entries_keys [OF entries] by simp
  have dist: "distinct (map fst result)"
    unfolding order by (rule insertion_order_distinct) simp
  have names: "set (map fst result) = rstrip (CHR ''/'') ` anchor_text ` set ?ls"
    unfolding order by (auto simp add: insertion_order_set entry_name_def)
  have "map fst result = map (\<lambda>l. rstrip (CHR ''/'') (anchor_text l)) ?ls \<and>
        result = map (\<lambda>l. projr (parse_entry E l)) ?ls \<and>
        bij_betw (rstrip (CHR ''/'')) (anchor_text ` set ?ls) (set (map fst result))"
    if d: "distinct (map entry_name ?ls)"
  proof -
    have all: "result = map (\<lambda>l. projr (parse_entry E l)) ?ls"
      using parse_entries_fresh [OF entries d] by auto
    have lines: "map fst result = map (\<lambda>l. rstrip (CHR ''/'') (anchor_text l)) ?ls"
      using order d by (simp add: insertion_order_fresh entry_name_def [abs_def])
    have "inj_on (rstrip (CHR ''/'') \<circ> anchor_text) (set ?ls)"
      using d by (simp add: distinct_map entry_name_def [abs_def] comp_def)
    then have "inj_on (rstrip (CHR ''/'')) (anchor_text ` set ?ls)"
      by (rule inj_on_imageI)
    then have "bij_betw (rstrip (CHR ''/'')) (anchor_text ` set ?ls) (set (map fst result))"
      using names by (simp add: bij_betw_def)
    then show ?thesis
      using all lines by blast
  qed
  then show ?thesis
    using order dist names by blast
qed

subsection \<open>The example listings\<close>

lemma parse_entry_groups:
  assumes "match_groups l = Some [icon, url, name, date, time, sz, unit]"
  shows "parse_entry E l =
     (if url \<noteq> name then Inl AssertionError
      else if endswith name ''/'' \<noteq> (icon = ''DIR'') then Inl AssertionError
      else (case strptime E (date @ '' '' @ time) of
              Inl e \<Rightarrow> Inl e
            | Inr mtime \<Rightarrow>
                (case decode_size sz unit of
                   Inl e \<Rightarrow> Inl e
                 | Inr n \<Rightarrow> Inr (rstrip (CHR ''/'') name, icon, n, mtime))))"
  using assms
  by (auto simp add: match_groups_def parse_entry_def Let_def split: option.splits)

lemma anchor_text_groups:
  "match_groups l = Some [icon, url, name, date, time, sz, unit] \<Longrightarrow> anchor_text l = name"
  by (auto simp add: match_groups_def anchor_text_def split: option.splits)

lemma parse_listing_frame:
  assumes "str_count t ''<pre>'' = 1" and "str_count t ''</pre>'' = 1"
    and "str_find t ''<pre>'' = Some i" and "str_find t ''</pre>'' = Some j"
    and "splitlines (take (j - (i + length ''<pre>'')) (drop (i + length ''<pre>'') t)) = ls"
    and "ls \<noteq> []" and "str_count (hd ls) ''Name'' = 1"
    and "str_count (hd ls) ''Last modified'' = 1" and "last ls = ''<hr>''"
  shows "parse_listing E t = parse_entries E [] (butlast (tl ls)) \<and>
         entry_lines t = butlast (tl ls)"
  using assms by (simp add: parse_listing_def entry_lines_def Let_def)

lemma groups_ex_line_dir: "match_groups ex_line_dir =
    Some [''DIR'', ''sub/'', ''sub/'', ''02-Mar-2015'', ''11:30'', ''-'', []]"
  by code_simp

lemma groups_ex_line_file: "match_groups ex_line_file =
    Some [''TXT'', ''a.txt'', ''a.txt'', ''01-Jan-2020'', ''10:00'', ''10'', ''K'']"
  by code_simp

lemma groups_ex_line_big: "match_groups ex_line_big =
    Some [''VID'', ''b.avi'', ''b.avi'', ''01-Jan-2020'', ''10:05'', ''1.5'', ''M'']"
  by code_simp

lemma groups_ex_line_a_file: "match_groups ex_line_a_file =
    Some [''TXT'', ''a'', ''a'', ''01-Jan-2020'', ''10:00'', ''1'', ''K'']"
  by code_simp

lemma groups_ex_line_a_dir: "match_groups ex_line_a_dir =
    Some [''DIR'', ''a/'', ''a/'', ''01-Jan-2020'', ''10:00'', ''-'', []]"
  by code_simp

lemmas name_eval = endswith_def suffix_to_prefix rstrip_def ex_env_def

lemma parse_ex_line_dir:
  "parse_entry ex_env ex_line_dir = Inr (''sub'', ''DIR'', 0, ''02-Mar-2015 11:30'')"
  by (simp add: parse_entry_groups [OF groups_ex_line_dir] name_eval decode_dash)

lemma parse_ex_line_file:
  "parse_entry ex_env ex_line_file = Inr (''a.txt'', ''TXT'', 10342, ''01-Jan-2020 10:00'')"
  by (simp add: parse_entry_groups [OF groups_ex_line_file] name_eval decode_10K)

lemma parse_ex_line_big:
  "parse_entry ex_env ex_line_big = Inr (''b.avi'', ''VID'', 1677721, ''01-Jan-2020 10:05'')"
  by (simp add: parse_entry_groups [OF groups_ex_line_big] name_eval decode_1_5M)

lemma decode_1K: "decode_size ''1'' ''K'' = Inr 1126"
  by (simp add: decode_size_def py_float_def sizes_def float_eval class_eval)

lemma parse_ex_line_a_file:
  "parse_entry ex_env ex_line_a_file = Inr (''a'', ''TXT'', 1126, ''01-Jan-2020 10:00'')"
  by (simp add: parse_entry_groups [OF groups_ex_line_a_file] name_eval decode_1K)

lemma parse_ex_line_a_dir:
  "parse_entry ex_env ex_line_a_dir = Inr (''a'', ''DIR'', 0, ''01-Jan-2020 10:00'')"
  by (simp add: parse_entry_groups [OF groups_ex_line_a_dir] name_eval decode_dash)

lemma frame_ex_listing:
  "parse_listing E ex_listing = parse_entries E [] [ex_line_dir, ex_line_file] \<and>
   entry_lines ex_listing = [ex_line_dir, ex_line_file]"
proof -
  have 1: "str_count ex_listing ''<pre>'' = 1" by code_simp
  have 2: "str_count ex_listing ''</pre>'' = 1" by code_simp
  have 3: "str_find ex_listing ''<pre>'' = Some 99" by code_simp
  have 4: "str_find ex_listing ''</pre>'' = Some 362" by code_simp
  have 5: "splitlines (take (362 - (99 + length ''<pre>'')) (drop (99 + length ''<pre>'') ex_listing))
      = [ex_header, ex_line_dir, ex_line_file, ''<hr>'']" by code_simp
  have 6: "str_count ex_header ''Name'' = 1" by code_simp
  have 7: "str_count ex_header ''Last modified'' = 1" by code_simp
  show ?thesis
    using parse_listing_frame [OF 1 2 3 4 5, of E] 6 7 by simp
qed

lemma parse_ex_listing: "parse_listing ex_env ex_listing = Inr ex_root"
  by (simp add: frame_ex_listing parse_ex_line_dir parse_ex_line_file ex_root_def)

lemma frame_ex_clash:
  "parse_listing E ex_clash = parse_entries E [] [ex_line_a_file, ex_line_a_dir] \<and>
   entry_lines ex_clash = [ex_line_a_file, ex_line_a_dir]"
proof -
  have 1: "str_count ex_clash ''<pre>'' = 1" by code_simp
  have 2: "str_count ex_clash ''</pre>'' = 1" by code_simp
  have 3: "str_find ex_clash ''<pre>'' = Some 0" by code_simp
  have 4: "str_find ex_clash ''</pre>'' = Some 173" by code_simp
  have 5: "splitlines (take (173 - (0 + length ''<pre>'')) (drop (0 + length ''<pre>'') ex_clash))
      = [''Name Last modified'', ex_line_a_file, ex_line_a_dir, ''<hr>'']" by code_simp
  have 6: "str_count ''Name Last modified'' ''Name'' = 1" by code_simp
  have 7: "str_count ''Name Last modified'' ''Last modified'' = 1" by code_simp
  show ?thesis
    using parse_listing_frame [OF 1 2 3 4 5, of E] 6 7 by simp
qed

lemma parse_ex_clash:
  "parse_listing ex_env ex_clash = Inr [(''a'', ''DIR'', 0, ''01-Jan-2020 10:00'')]"
  by (simp add: frame_ex_clash parse_ex_line_a_file parse_ex_line_a_dir)

theorem parse_listing_order_witness:
  "parse_listing ex_env ex_listing = Inr ex_root \<and>
   distinct (map entry_name (entry_lines ex_listing)) \<and>
   map anchor_text (entry_lines ex_listing) = [''sub/'', ''a.txt''] \<and>
   map fst ex_root = [''sub'', ''a.txt''] \<and>
   map fst ex_root = insertion_order [] (map entry_name (entry_lines ex_listing)) \<and>
   map fst ex_root =
     map (\<lambda>l. rstrip (CHR ''/'') (anchor_text l)) (entry_lines ex_listing) \<and>
   bij_betw (rstrip (CHR ''/'')) (anchor_text ` set (entry_lines ex_listing))
     (set (map fst ex_root))"
proof -
  have lines: "entry_lines ex_listing = [ex_line_dir, ex_line_file]"
    by (simp add: frame_ex_listing)
  have anchors: "map anchor_text (entry_lines ex_listing) = [''sub/'', ''a.txt'']"
    by (simp add: lines anchor_text_groups [OF groups_ex_line_dir]
        anchor_text_groups [OF groups_ex_line_file])
  have "map entry_name (entry_lines ex_listing) = [''sub'', ''a.txt'']"
    using anchors by (simp add: lines entry_name_def rstrip_def)
  then have dist: "distinct (map entry_name (entry_lines ex_listing))"
    by simp
  have names: "map fst ex_root = [''sub'', ''a.txt'']"
    by (simp add: ex_root_def)
  note t = parse_listing_order [OF parse_ex_listing]
  have order: "map fst ex_root = insertion_order [] (map entry_name (entry_lines ex_listing))"
    by (rule t [THEN conjunct1])
  have "map fst ex_root = map (\<lambda>l. rstrip (CHR ''/'') (anchor_text l)) (entry_lines ex_listing) \<and>
      ex_root = map (\<lambda>l. projr (parse_entry ex_env l)) (entry_lines ex_listing) \<and>
      bij_betw (rstrip (CHR ''/'')) (anchor_text ` set (entry_lines ex_listing))
        (set (map fst ex_root))"
    by (rule t [THEN conjunct2, THEN conjunct2, THEN conjunct2, THEN mp, OF dist])
  then show ?thesis
    using parse_ex_listing dist anchors names order by blast
qed

text \<open>
  Against C5 as stated: a body with the entry lines of a file \<open>a\<close> and of a directory
  \<open>a/\<close> passes every check of the parser; its two anchor texts are distinct and the
  result holds the single name \<open>a\<close>, so no map between the anchor texts and the names
  is one-to-one and onto.
\<close>

theorem same_name_counterexample:
  "parse_listing ex_env ex_clash = Inr [(''a'', ''DIR'', 0, ''01-Jan-2020 10:00'')] \<and>
   map anchor_text (entry_lines ex_clash) = [''a'', ''a/''] \<and>
   \<not> (\<exists>f. bij_betw f (set (map anchor_text (entry_lines ex_clash)))
          (set (map fst [(''a'', ''DIR'', 0 :: int, ''01-Jan-2020 10:00'')])))"
proof -
  have anchors: "map anchor_text (entry_lines ex_clash) = [''a'', ''a/'']"
    by (simp add: frame_ex_clash anchor_text_groups [OF groups_ex_line_a_file]
        anchor_text_groups [OF groups_ex_line_a_dir])
  have "\<not> bij_betw f {''a'', ''a/''} {''a''}" for f :: "string \<Rightarrow> string"
  proof
    assume "bij_betw f {''a'', ''a/''} {''a''}"
    then have "card {''a'', ''a/''} = card {''a''}"
      by (rule bij_betw_same_card)
    then show False by simp
  qed
  then show ?thesis
    using parse_ex_clash anchors by simp
qed

subsection \<open>The size field\<close>

text \<open>
  Claim C1, as amended. For every entry line that the parser accepts, the size of the
  entry is what lines 103 and 104 compute from the groups \<open>size\<close> and \<open>sizeunit\<close> of
  the match: 0 for a dash, whatever the icon is; otherwise the group \<open>size\<close> is read
  as a double, 0.1 is added, the sum is multiplied by 1024 to the rank of the unit
  (0 to 5 for none, K, M, G, T, P), all in double arithmetic, and the product is
  truncated to an integer. The size is never negative. So \<open>10K\<close> decodes to 10342 and
  \<open>1.5M\<close> to 1677721, and a directory line with a dash has size 0.
\<close>

theorem size_decoding:
  "(parse_entry E str_entry = Inr (name, icon, sz, mtime) \<longrightarrow>
      (\<exists>mo. re_match entry_pattern str_entry = Some mo \<and>
         decode_size (mo_group mo ''size'') (mo_group mo ''sizeunit'') = Inr sz \<and>
         (mo_group mo ''size'' = ''-'' \<longrightarrow> sz = 0) \<and>
         (mo_group mo ''size'' \<noteq> ''-'' \<longrightarrow>
            (\<exists>x i. py_float (mo_group mo ''size'') = Inr x \<and>
               list_index sizes (mo_group mo ''sizeunit'') = Inr i \<and> i \<le> 5 \<and>
               py_int (float_mul_pow2 (float_add (to_double 1 10) x) (10 * i)) = Inr sz)) \<and>
         0 \<le> sz)) \<and>
   decode_size ''10'' ''K'' = Inr 10342 \<and>
   decode_size ''1.5'' ''M'' = Inr 1677721 \<and>
   decode_size ''-'' [] = Inr 0"
proof -
  have index: "i \<le> 5" if "list_index sizes u = Inr i" for u i
    using that by (auto simp add: sizes_def split: if_splits)
  have "\<exists>mo. re_match entry_pattern str_entry = Some mo \<and>
         decode_size (mo_group mo ''size'') (mo_group mo ''sizeunit'') = Inr sz \<and>
         (mo_group mo ''size'' = ''-'' \<longrightarrow> sz = 0) \<and>
         (mo_group mo ''size'' \<noteq> ''-'' \<longrightarrow>
            (\<exists>x i. py_float (mo_group mo ''size'') = Inr x \<and>
               list_index sizes (mo_group mo ''sizeunit'') = Inr i \<and> i \<le> 5 \<and>
               py_int (float_mul_pow2 (float_add (to_double 1 10) x) (10 * i)) = Inr sz)) \<and>
         0 \<le> sz"
    if p: "parse_entry E str_entry = Inr (name, icon, sz, mtime)"
  proof -
    from parse_entry_ok [OF p] obtain mo where
      mo: "re_match entry_pattern str_entry = Some mo"
      and d: "decode_size (mo_group mo ''size'') (mo_group mo ''sizeunit'') = Inr sz"
      by blast
    have dash: "mo_group mo ''size'' = ''-'' \<longrightarrow> sz = 0"
      using d by (auto simp add: decode_size_def)
    have number: "mo_group mo ''size'' \<noteq> ''-'' \<longrightarrow>
        (\<exists>x i. py_float (mo_group mo ''size'') = Inr x \<and>
           list_index sizes (mo_group mo ''sizeunit'') = Inr i \<and> i \<le> 5 \<and>
           py_int (float_mul_pow2 (float_add (to_double 1 10) x) (10 * i)) = Inr sz)"
      using d index by (auto simp add: decode_size_def split: sum.splits if_splits)
    show ?thesis
      using mo d dash number decode_size_nonneg [OF d] by blast
  qed
  then show ?thesis
    using decode_10K decode_1_5M decode_dash [of "[]"] by blast
qed

theorem size_decoding_witness:
  "parse_entry ex_env ex_line_file = Inr (''a.txt'', ''TXT'', 10342, ''01-Jan-2020 10:00'') \<and>
   (\<exists>mo. re_match entry_pattern ex_line_file = Some mo \<and>
      decode_size (mo_group mo ''size'') (mo_group mo ''sizeunit'') = Inr 10342) \<and>
   parse_entry ex_env ex_line_dir = Inr (''sub'', ''DIR'', 0, ''02-Mar-2015 11:30'')"
  using size_decoding [of ex_env ex_line_file "''a.txt''" "''TXT''" 10342 "''01-Jan-2020 10:00''"]
    parse_ex_line_file parse_ex_line_dir
  by blast

text \<open>
  Against C1 as stated: the line of \<open>a.txt\<close> with the size \<open>10K\<close> parses to the size
  10342, not 10240, and the line of \<open>b.avi\<close> with the size \<open>1.5M\<close> to 1677721, not
  1572864.
\<close>

theorem size_decoding_counterexample:
  "parse_entry ex_env ex_line_file = Inr (''a.txt'', ''TXT'', 10342, ''01-Jan-2020 10:00'') \<and>
   parse_entry ex_env ex_line_big = Inr (''b.avi'', ''VID'', 1677721, ''01-Jan-2020 10:05'') \<and>
   (10342 :: int) \<noteq> 10240 \<and> (1677721 :: int) \<noteq> 1572864"
  using parse_ex_line_file parse_ex_line_big by simp

subsection \<open>The example states are states of the mount\<close>

lemma list_root:
  "readdir ex_env ex_init ''/'' = (Inr [''.'', ''..'', ''sub'', ''a.txt''], ex_state)"
proof -
  have miss: "cache ex_init ''/'' = None"
    by (simp add: ex_init_def init_def)
  have answer: "requests_get ex_env (length (gets ex_init)) (full_path ex_env ''/'')
      = Inr (200, ex_listing, ex_listing)"
    by (simp add: ex_env_def ex_server_def path_eval)
  have listing: "prefix LISTING ex_listing"
    by (simp add: ex_listing_def)
  have "get ex_env ex_init ''/'' = (Inr (Listing ex_root), ex_state)"
    using get_miss_listing [OF miss answer listing]
    by (simp add: parse_ex_listing) (simp add: ex_init_def init_def ex_state_def)
  then show ?thesis
    by (simp add: readdir_def ex_root_def)
qed


end
